theory Spec2Isabelle
  imports Main "HOL-Library.List_Lexorder" "HOL-Library.Char_ord" "HOL-Library.Multiset"
begin

section \<open>The repository store of repo-updater (cmd/repo-updater/repos/store.go)\<close>

text \<open>
  The store reads and writes the \<open>repo\<close> table through a database handle. The handle,
  the table and the statements it runs are modelled explicitly: a handle is described by
  the interfaces its dynamic type satisfies, the table is a list of rows with nullable
  columns, and each SQL statement of the source is a function on that list.
\<close>

subsection \<open>Errors\<close>

text \<open>
  \<open>ErrNew\<close> is \<open>errors.New\<close>, \<open>ErrWrap\<close> is \<open>errors.Wrap\<close>. \<open>ScanNull\<close> is the error of
  \<open>database/sql\<close> when a NULL (or a value out of range) meets a destination that cannot
  hold it, \<open>UnmarshalError\<close> the error of \<open>json.Unmarshal\<close>, \<open>MarshalError\<close> the one of
  \<open>json.MarshalIndent\<close>, \<open>UniqueViolation\<close> the error of the database when a statement
  breaks a unique constraint and \<open>OutOfRange\<close> its error when a value does not fit the type
  of a column. A panic of the Go runtime is not an error value: it is the
  separate outcome \<open>Panic\<close>.
\<close>

datatype error =
    ErrNew string
  | ErrWrap error string
  | ScanNull string
  | UnmarshalError
  | MarshalError
  | UniqueViolation string
  | OutOfRange string

datatype failure = Error error | Panic string

subsection \<open>Handles, stores and transactions\<close>

record TxOptions =
  Isolation :: nat
  ReadOnly :: bool

text \<open>
  The interfaces \<open>DB\<close>, \<open>Tx\<close> and \<open>TxBeginner\<close> are declared outside store.go; the store
  only asks a handle which of them it satisfies. \<open>asTx h = Some t\<close> says that the type
  assertion \<open>h.(Tx)\<close> succeeds, \<open>t\<close> naming the transaction; \<open>asTxBeginner h = Some f\<close>
  says that \<open>h.(TxBeginner)\<close> succeeds, \<open>f opts\<close> being what \<open>BeginTx\<close> returns: an error
  or the name of the transaction it began.
\<close>

record handle =
  asTx :: "nat option"
  asTxBeginner :: "(TxOptions \<Rightarrow> error + nat) option"

text \<open>The handle of a transaction begun by \<open>BeginTx\<close> (\<open>*sql.Tx\<close>): a \<open>Tx\<close>, not a \<open>TxBeginner\<close>.\<close>

definition tx_handle :: "nat \<Rightarrow> handle" where
  "tx_handle t = \<lparr>asTx = Some t, asTxBeginner = None\<rparr>"

record DBStore =
  db :: handle
  kinds :: "string list"
  txOpts :: TxOptions

definition NewDBStore :: "handle \<Rightarrow> string list \<Rightarrow> TxOptions \<Rightarrow> DBStore" where
  "NewDBStore h ks opts = \<lparr>db = h, kinds = ks, txOpts = opts\<rparr>"

definition Transact :: "DBStore \<Rightarrow> error + DBStore" where
  "Transact s =
     (case asTx (db s) of
        Some _ \<Rightarrow> Inr s
      | None \<Rightarrow>
          (case asTxBeginner (db s) of
             None \<Rightarrow> Inl (ErrNew ''dbstore: not transactable'')
           | Some BeginTx \<Rightarrow>
               (case BeginTx (txOpts s) of
                  Inl err \<Rightarrow> Inl (ErrWrap err ''dbstore: BeginTx'')
                | Inr tx \<Rightarrow> Inr \<lparr>db = tx_handle tx, kinds = [], txOpts = txOpts s\<rparr>)))"

text \<open>
  \<open>Done\<close> returns the calls it makes on the transaction; their results are discarded by
  the source. An element of \<open>errs\<close> is a pointer to an error: \<open>None\<close> is the nil pointer,
  \<open>Some None\<close> points to the nil error, \<open>Some (Some e)\<close> points to the error \<open>e\<close>.
\<close>

datatype tx_call = Commit nat | Rollback nat

definition Done :: "DBStore \<Rightarrow> error option option list \<Rightarrow> tx_call list" where
  "Done s errs =
     (case asTx (db s) of
        None \<Rightarrow> []
      | Some tx \<Rightarrow>
          (case errs of
             [] \<Rightarrow> [Commit tx]
           | Some (Some _) # _ \<Rightarrow> [Rollback tx]
           | _ \<Rightarrow> [Commit tx]))"

subsection \<open>The data model\<close>

text \<open>
  A JSON document is modelled by the value it denotes, so that \<open>json.Marshal\<close> followed by
  the database's parser, and the database's printer followed by \<open>json.Unmarshal\<close>, are
  the identity on values. A byte string that is not JSON is \<open>None\<close>.
\<close>

datatype json =
    JNull
  | JBool bool
  | JNumber int
  | JString string
  | JArray "json list"
  | JObject "(string \<times> json) list"

text \<open>
  A \<open>time.Time\<close> is the instant it denotes, counted in microseconds, the resolution of the
  column type \<open>timestamptz\<close>, from the zero time, which is the first instant of the year 1
  in UTC. \<open>UTC\<close> changes the location of a time, not its instant. \<open>json.MarshalIndent\<close>
  fails on a time whose year is not within 0 and 9999: the year 0 begins 366 days before
  the zero time, the year 10000 begins 3652059 days after it.
\<close>

type_synonym time = int

definition UTC :: "time \<Rightarrow> time" where
  "UTC t = t"

definition IsZero :: "time \<Rightarrow> bool" where
  "IsZero t \<longleftrightarrow> t = 0"

definition year_marshals :: "time \<Rightarrow> bool" where
  "year_marshals t \<longleftrightarrow> - 366 * 86400000000 \<le> t \<and> t < 3652059 * 86400000000"

text \<open>
  A byte slice that is read as JSON: the nil slice, the text of a JSON value, or bytes
  that are not JSON, the empty slice among them.
\<close>

datatype raw_json = NilBytes | JSONText json | NotJSON

text \<open>
  The field \<open>Metadata\<close> of a repo is an \<open>interface{}\<close>; \<open>upsertReposQuery\<close> distinguishes
  \<open>[]byte\<close>, \<open>string\<close>, \<open>json.RawMessage\<close> and every other dynamic type. A \<open>[]byte\<close> and a
  \<open>json.RawMessage\<close> are byte slices; a \<open>string\<close> is the text of a JSON value or not
  (\<open>None\<close>), and is never nil; a value of another type carries the result of
  \<open>json.MarshalIndent\<close> on it (\<open>None\<close> when marshalling fails), which is \<open>null\<close> for the nil
  interface.
\<close>

datatype Metadata =
    MetaBytes raw_json
  | MetaString "json option"
  | MetaRawMessage raw_json
  | MetaValue "json option"

text \<open>
  The struct \<open>Repo\<close> is declared outside store.go; these are the fields store.go reads and
  writes. \<open>ExtID\<close> is the field \<open>ID\<close> of \<open>ExternalRepo\<close>. \<open>ID\<close> is a \<open>uint32\<close>.
\<close>

record ExternalRepoSpec =
  ExtID :: string
  ServiceType :: string
  ServiceID :: string

record Repo =
  ID :: nat
  Name :: string
  Description :: string
  Language :: string
  CreatedAt :: time
  UpdatedAt :: time
  DeletedAt :: time
  ExternalRepo :: ExternalRepoSpec
  Enabled :: bool
  Archived :: bool
  Fork :: bool
  Sources :: "string list"
  Metadata :: Metadata

text \<open>
  A row of the table \<open>repo\<close>, of the \<open>batch\<close> and of every result set: the fifteen columns
  of the statements, each of them nullable (\<open>None\<close> is NULL). The column \<open>id\<close> is \<open>id_col\<close>.
\<close>

record row =
  id_col :: "int option"
  name :: "string option"
  description :: "string option"
  language :: "string option"
  created_at :: "time option"
  updated_at :: "time option"
  deleted_at :: "time option"
  external_service_type :: "string option"
  external_service_id :: "string option"
  external_id :: "string option"
  enabled :: "bool option"
  archived :: "bool option"
  fork :: "bool option"
  sources :: "json option"
  metadata :: "json option"

subsection \<open>Scanner and codec\<close>

definition nullTimeColumn :: "time \<Rightarrow> time option" where
  "nullTimeColumn t = (if IsZero t then None else Some t)"

definition nullStringColumn :: "string \<Rightarrow> string option" where
  "nullStringColumn s = (if s = [] then None else Some s)"

text \<open>
  \<open>json.Marshal\<close> coerces a string to valid UTF-8: it reads the string rune by rune and
  writes the replacement character U+FFFD, the bytes EF BF BD, for every byte at which no
  well-formed rune begins. \<open>rune_length b bs\<close> is the length of the well-formed rune that
  begins with the byte \<open>b\<close>, followed by the bytes \<open>bs\<close>, and 0 when there is none: the
  ranges of the first and of the second byte are those of \<open>utf8.DecodeRuneInString\<close>.
  \<open>coerce_from k\<close> copies the \<open>k\<close> remaining bytes of the current rune and then goes on
  rune by rune.
\<close>

definition in_range :: "nat \<Rightarrow> nat \<Rightarrow> char \<Rightarrow> bool" where
  "in_range lo hi c \<longleftrightarrow> lo \<le> of_char c \<and> of_char c \<le> hi"

fun continuation :: "nat \<Rightarrow> string \<Rightarrow> bool" where
  "continuation 0 bs = True"
| "continuation (Suc n) [] = False"
| "continuation (Suc n) (b # bs) = (in_range 128 191 b \<and> continuation n bs)"

definition rune_length :: "char \<Rightarrow> string \<Rightarrow> nat" where
  "rune_length b0 bs =
     (let x = (of_char b0 :: nat);
          second = (\<lambda>lo hi n. case bs of
                       [] \<Rightarrow> 0
                     | b1 # bs' \<Rightarrow>
                         if in_range lo hi b1 \<and> continuation n bs' then Suc (Suc n) else 0)
      in if x < 128 then 1
         else if 194 \<le> x \<and> x \<le> 223 then second 128 191 0
         else if x = 224 then second 160 191 1
         else if x = 237 then second 128 159 1
         else if 225 \<le> x \<and> x \<le> 239 then second 128 191 1
         else if x = 240 then second 144 191 2
         else if 241 \<le> x \<and> x \<le> 243 then second 128 191 2
         else if x = 244 then second 128 143 2
         else 0)"

fun coerce_from :: "nat \<Rightarrow> string \<Rightarrow> string" where
  "coerce_from k [] = []"
| "coerce_from (Suc k) (b # bs) = b # coerce_from k bs"
| "coerce_from 0 (b # bs) =
     (case rune_length b bs of
        0 \<Rightarrow> [CHR 0xEF, CHR 0xBF, CHR 0xBD] @ coerce_from 0 bs
      | Suc n \<Rightarrow> b # coerce_from n bs)"

definition coerce_utf8 :: "string \<Rightarrow> string" where
  "coerce_utf8 s = coerce_from 0 s"

text \<open>
  \<open>sourcesColumn\<close> builds a Go map whose keys are the sources and whose values are all nil,
  here the set of its keys, and marshals it; \<open>json.Marshal\<close> writes the keys of a map in
  sorted order, each of them coerced to valid UTF-8. Two keys may be coerced to the same
  string: the object then has this key twice, and a reader of it keeps one of the two.
\<close>

definition sourcesColumn :: "string list \<Rightarrow> json" where
  "sourcesColumn srcs =
     (let m = fold insert srcs {}
      in JObject (map (\<lambda>src. (coerce_utf8 src, JNull)) (sorted_list_of_set m)))"

text \<open>
  \<open>json.Unmarshal\<close> into a \<open>map[string]interface{}\<close>: \<open>null\<close> leaves the map nil, an object
  gives its keys, anything else is an error. Only the keys of the map are read afterwards.
\<close>

fun unmarshal_set :: "json \<Rightarrow> error + string set" where
  "unmarshal_set JNull = Inr {}"
| "unmarshal_set (JObject kvs) = Inr (set (map fst kvs))"
| "unmarshal_set _ = Inl UnmarshalError"

text \<open>
  \<open>Scan\<close> converts the columns of a row one after the other and stops at the first one it
  cannot store; the destinations before it have been written. \<open>scan_into\<close> is one such
  step for a destination that cannot hold NULL.
\<close>

definition scan_into ::
  "string \<Rightarrow> 'a option \<Rightarrow> ('a \<Rightarrow> Repo \<Rightarrow> Repo) \<Rightarrow> error option \<times> Repo \<Rightarrow> error option \<times> Repo" where
  "scan_into col v assign st =
     (case st of
        (Some e, r) \<Rightarrow> (Some e, r)
      | (None, r) \<Rightarrow>
          (case v of
             None \<Rightarrow> (Some (ScanNull col), r)
           | Some x \<Rightarrow> (None, assign x r)))"

text \<open>
  Modelled from the spec: the destinations \<open>nullTime\<close> and \<open>nullString\<close> are declared
  outside store.go. The absence of an optional time or string is a NULL in the table and
  the zero value in memory, so a NULL is decoded to the zero value, the inverse of
  \<open>nullTimeColumn\<close> and \<open>nullStringColumn\<close>.
\<close>

definition scan_null ::
  "'a \<Rightarrow> 'a option \<Rightarrow> ('a \<Rightarrow> Repo \<Rightarrow> Repo) \<Rightarrow> error option \<times> Repo \<Rightarrow> error option \<times> Repo" where
  "scan_null zero v assign st =
     (case st of
        (Some e, r) \<Rightarrow> (Some e, r)
      | (None, r) \<Rightarrow> (None, assign (case v of None \<Rightarrow> zero | Some x \<Rightarrow> x) r))"

text \<open>The column \<open>id\<close> is stored into a \<open>uint32\<close>, which holds neither NULL nor a negative number.\<close>

definition scan_uint32 :: "int option \<Rightarrow> nat option" where
  "scan_uint32 v =
     (case v of
        None \<Rightarrow> None
      | Some i \<Rightarrow> if 0 \<le> i \<and> i < 4294967296 then Some (nat i) else None)"

text \<open>
  The call of \<open>Scan\<close> in \<open>scanRepo\<close>: thirteen destinations in the repo, and the two local
  variables \<open>sources\<close> and \<open>metadata\<close>, returned with the repo. These two are of the type
  \<open>json.RawMessage\<close>, which \<open>Scan\<close> does not store a NULL into.
\<close>

definition Scan :: "Repo \<Rightarrow> row \<Rightarrow> error option \<times> Repo \<times> json option \<times> json option" where
  "Scan r s =
     (let st = (None, r);
          st = scan_into ''id'' (scan_uint32 (id_col s)) (\<lambda>v r. r\<lparr>ID := v\<rparr>) st;
          st = scan_into ''name'' (name s) (\<lambda>v r. r\<lparr>Name := v\<rparr>) st;
          st = scan_into ''description'' (description s) (\<lambda>v r. r\<lparr>Description := v\<rparr>) st;
          st = scan_into ''language'' (language s) (\<lambda>v r. r\<lparr>Language := v\<rparr>) st;
          st = scan_into ''created_at'' (created_at s) (\<lambda>v r. r\<lparr>CreatedAt := v\<rparr>) st;
          st = scan_null 0 (updated_at s) (\<lambda>v r. r\<lparr>UpdatedAt := v\<rparr>) st;
          st = scan_null 0 (deleted_at s) (\<lambda>v r. r\<lparr>DeletedAt := v\<rparr>) st;
          st = scan_null [] (external_service_type s)
                 (\<lambda>v r. r\<lparr>ExternalRepo := (ExternalRepo r)\<lparr>ServiceType := v\<rparr>\<rparr>) st;
          st = scan_null [] (external_service_id s)
                 (\<lambda>v r. r\<lparr>ExternalRepo := (ExternalRepo r)\<lparr>ServiceID := v\<rparr>\<rparr>) st;
          st = scan_null [] (external_id s)
                 (\<lambda>v r. r\<lparr>ExternalRepo := (ExternalRepo r)\<lparr>ExtID := v\<rparr>\<rparr>) st;
          st = scan_into ''enabled'' (enabled s) (\<lambda>v r. r\<lparr>Enabled := v\<rparr>) st;
          st = scan_into ''archived'' (archived s) (\<lambda>v r. r\<lparr>Archived := v\<rparr>) st;
          st = scan_into ''fork'' (fork s) (\<lambda>v r. r\<lparr>Fork := v\<rparr>) st;
          st = scan_into ''sources'' (sources s) (\<lambda>v r. r) st;
          st = scan_into ''metadata'' (metadata s) (\<lambda>v r. r) st
      in (fst st, snd st, sources s, metadata s))"

text \<open>
  \<open>scanRepo\<close> returns the error, if any, and the repo as it has been written so far. The
  metadata of the repo becomes the \<open>json.RawMessage\<close> that was read. The keys of the decoded
  map are appended in the order of a map iteration and then sorted.
\<close>

definition scanRepo :: "Repo \<Rightarrow> row \<Rightarrow> error option \<times> Repo" where
  "scanRepo r s =
     (case Scan r s of
        (Some err, r, _, _) \<Rightarrow> (Some err, r)
      | (None, r, srcs, md) \<Rightarrow>
          (let r = r\<lparr>Metadata := MetaRawMessage (case md of None \<Rightarrow> NilBytes | Some j \<Rightarrow> JSONText j)\<rparr>
           in case (case srcs of None \<Rightarrow> Inl UnmarshalError | Some j \<Rightarrow> unmarshal_set j) of
                Inl err \<Rightarrow> (Some (ErrWrap err ''scanRepo: failed to unmarshal sources''), r)
              | Inr set_of_keys \<Rightarrow> (None, r\<lparr>Sources := sorted_list_of_set set_of_keys\<rparr>)))"

subsection \<open>SQL values and operators\<close>

text \<open>
  A truth value of SQL is \<open>Some True\<close>, \<open>Some False\<close> or \<open>None\<close> (unknown). A \<open>WHERE\<close> or
  \<open>ON\<close> clause keeps a row when its condition is \<open>Some True\<close>.
\<close>

definition where_true :: "bool option \<Rightarrow> bool" where
  "where_true c \<longleftrightarrow> c = Some True"

fun sql_and :: "bool option \<Rightarrow> bool option \<Rightarrow> bool option" where
  "sql_and (Some False) _ = Some False"
| "sql_and _ (Some False) = Some False"
| "sql_and (Some True) (Some True) = Some True"
| "sql_and _ _ = None"

fun sql_or :: "bool option \<Rightarrow> bool option \<Rightarrow> bool option" where
  "sql_or (Some True) _ = Some True"
| "sql_or _ (Some True) = Some True"
| "sql_or (Some False) (Some False) = Some False"
| "sql_or _ _ = None"

definition sql_not :: "bool option \<Rightarrow> bool option" where
  "sql_not c = map_option Not c"

fun sql_eq :: "'a option \<Rightarrow> 'a option \<Rightarrow> bool option" where
  "sql_eq (Some x) (Some y) = Some (x = y)"
| "sql_eq _ _ = None"

fun sql_gt :: "int option \<Rightarrow> int option \<Rightarrow> bool option" where
  "sql_gt (Some x) (Some y) = Some (x > y)"
| "sql_gt _ _ = None"

definition is_null :: "'a option \<Rightarrow> bool option" where
  "is_null v = Some (v = None)"

definition is_not_null :: "'a option \<Rightarrow> bool option" where
  "is_not_null v = Some (v \<noteq> None)"

text \<open>\<open>x IN (v1, ..., vn)\<close> is \<open>x = v1 OR ... OR x = vn\<close>.\<close>

definition sql_in :: "('a option \<Rightarrow> 'a option \<Rightarrow> bool option) \<Rightarrow> 'a option \<Rightarrow> 'a list \<Rightarrow> bool option" where
  "sql_in eq x vs = foldr (\<lambda>v c. sql_or (eq x (Some v)) c) vs (Some False)"

text \<open>\<open>COALESCE\<close> is the first argument that is not NULL, \<open>GREATEST\<close> the largest one.\<close>

definition sql_coalesce :: "'a option list \<Rightarrow> 'a option" where
  "sql_coalesce vs = (case List.map_filter (\<lambda>v. v) vs of [] \<Rightarrow> None | x # _ \<Rightarrow> Some x)"

definition sql_greatest :: "int option list \<Rightarrow> int option" where
  "sql_greatest vs = (case List.map_filter (\<lambda>v. v) vs of [] \<Rightarrow> None | x # xs \<Rightarrow> Some (fold max xs x))"

text \<open>
  Letter case: \<open>strings.ToUpper\<close> on the kinds, and the comparison of the type \<open>citext\<close>,
  which compares the lower-case forms of two names. Both are modelled on the letters of
  ASCII; a letter outside ASCII is left as it is.
\<close>

fun set_bit5 :: "bool \<Rightarrow> char \<Rightarrow> char" where
  "set_bit5 b (Char b0 b1 b2 b3 b4 b5 b6 b7) = Char b0 b1 b2 b3 b4 b b6 b7"

definition ascii_upper :: "char \<Rightarrow> char" where
  "ascii_upper c = (if CHR ''a'' \<le> c \<and> c \<le> CHR ''z'' then set_bit5 False c else c)"

definition ascii_lower :: "char \<Rightarrow> char" where
  "ascii_lower c = (if CHR ''A'' \<le> c \<and> c \<le> CHR ''Z'' then set_bit5 True c else c)"

definition ToUpper :: "string \<Rightarrow> string" where
  "ToUpper s = map ascii_upper s"

definition citext_eq :: "string option \<Rightarrow> string option \<Rightarrow> bool option" where
  "citext_eq a b = sql_eq (map_option (map ascii_lower) a) (map_option (map ascii_lower) b)"

subsection \<open>The database\<close>

text \<open>
  Modelled from the spec: the schema of the table \<open>repo\<close> is not in store.go. Its column
  \<open>id\<close> is assigned by the server on insertion, here from the counter \<open>next_id\<close>, and its
  column \<open>name\<close> is unique up to letter case: a statement that would leave two rows with
  equal names fails as a whole. Of the failures of the database, this one and an id that
  is out of the range of its column are part of the model; others, such as a lost
  connection, are not.
\<close>

record database =
  repo :: "row list"
  next_id :: int

fun unique_names :: "row list \<Rightarrow> bool" where
  "unique_names [] = True"
| "unique_names (r # rs) =
     (list_all (\<lambda>r'. \<not> where_true (citext_eq (name r) (name r'))) rs \<and> unique_names rs)"

subsection \<open>Read path: \<open>ListRepos\<close>\<close>

text \<open>
  A query is modelled by the function from the table to its result set. The rows that
  \<open>listReposQueryFmtstr\<close> selects have an \<open>id\<close> that is not NULL, since \<open>id > cursor\<close> is
  true of them; \<open>id_key\<close> is the key of its \<open>ORDER BY id ASC\<close>.
\<close>

type_synonym paginatedQuery = "int \<Rightarrow> int \<Rightarrow> row list \<Rightarrow> row list"

definition id_key :: "row \<Rightarrow> int" where
  "id_key r = (case id_col r of None \<Rightarrow> 0 | Some i \<Rightarrow> i)"

definition listReposWhere :: "string list \<Rightarrow> string list \<Rightarrow> int \<Rightarrow> row \<Rightarrow> bool option" where
  "listReposWhere ks names cursor r =
     (let kq = (if ks \<noteq> [] then sql_in sql_eq (external_service_type r) (map ToUpper ks)
                else Some True);
          nq = (if names \<noteq> [] then sql_in citext_eq (name r) names else Some False)
      in sql_and
           (sql_and
              (sql_and (sql_gt (id_col r) (Some cursor)) (is_null (deleted_at r)))
              kq)
           (sql_or (sql_not (sql_eq (sources r) (Some (JObject [])))) nq))"

definition listReposQuery :: "string list \<Rightarrow> string list \<Rightarrow> paginatedQuery" where
  "listReposQuery ks names =
     (\<lambda>cursor limit tbl.
        take (nat limit)
          (sort_key id_key (filter (\<lambda>r. where_true (listReposWhere ks names cursor r)) tbl)))"

text \<open>The zero value of \<open>Repo\<close>, which \<open>page\<close> declares for every row.\<close>

definition zero_Repo :: Repo where
  "zero_Repo =
     \<lparr>ID = 0, Name = [], Description = [], Language = [],
      CreatedAt = 0, UpdatedAt = 0, DeletedAt = 0,
      ExternalRepo = \<lparr>ExtID = [], ServiceType = [], ServiceID = []\<rparr>,
      Enabled = False, Archived = False, Fork = False,
      Sources = [], Metadata = MetaValue (Some JNull)\<rparr>"

text \<open>
  \<open>page\<close> runs one query and appends the decoded rows to \<open>repos\<close>, stopping at the first
  row that does not decode.
\<close>

fun scanAll_append :: "row list \<Rightarrow> Repo list \<Rightarrow> error option \<times> Repo list" where
  "scanAll_append [] repos = (None, repos)"
| "scanAll_append (sc # rows) repos =
     (case scanRepo zero_Repo sc of
        (Some err, _) \<Rightarrow> (Some err, repos)
      | (None, r) \<Rightarrow> scanAll_append rows (repos @ [r]))"

definition page :: "database \<Rightarrow> (row list \<Rightarrow> row list) \<Rightarrow> Repo list \<Rightarrow> error option \<times> Repo list" where
  "page d q repos = scanAll_append (q (repo d)) repos"

text \<open>
  The loop of \<open>paginate\<close>, with the page size as a parameter and a counter of the rounds
  (the calls of \<open>page\<close>) added to its state. The result is \<open>None\<close> when the loop does not end.
\<close>

partial_function (option) paginate_loop ::
  "database \<Rightarrow> paginatedQuery \<Rightarrow> int \<Rightarrow> int \<Rightarrow> int \<Rightarrow> error option \<Rightarrow> Repo list \<Rightarrow> nat
   \<Rightarrow> (error option \<times> Repo list \<times> nat) option" where
  "paginate_loop d q limit cursor next err repos rounds =
     (if cursor \<noteq> next \<and> err = None then
        (let cursor = next;
             (err, repos) = page d (q cursor limit) repos;
             next = (if repos \<noteq> [] then int (ID (last repos)) else next)
         in paginate_loop d q limit cursor next err repos (Suc rounds))
      else Some (err, repos, rounds))"

definition paginate_limit ::
  "int \<Rightarrow> database \<Rightarrow> paginatedQuery \<Rightarrow> (error option \<times> Repo list \<times> nat) option" where
  "paginate_limit limit d q = paginate_loop d q limit (-1) 0 None [] 0"

definition paginate :: "DBStore \<Rightarrow> database \<Rightarrow> paginatedQuery \<Rightarrow> (error option \<times> Repo list \<times> nat) option" where
  "paginate s d q = paginate_limit 500 d q"

definition ListRepos :: "DBStore \<Rightarrow> database \<Rightarrow> string list \<Rightarrow> (error option \<times> Repo list \<times> nat) option" where
  "ListRepos s d names = paginate s d (listReposQuery (kinds s) names)"

subsection \<open>Write path: \<open>UpsertRepos\<close>\<close>

text \<open>
  \<open>upsertReposQuery\<close> fills one \<open>record\<close> per repo and marshals the records to the JSON
  array that \<open>jsonb_to_recordset\<close> turns into the rows of \<open>batch\<close>. The two steps are
  taken together: \<open>batch_record\<close> is the row of \<open>batch\<close> that a repo becomes. A nil pointer
  is omitted from the JSON object (\<open>omitempty\<close>) and read back as NULL, and so is the JSON
  value \<open>null\<close>. Every string of a record is coerced to valid UTF-8 when it is marshalled.
  The description of the record is the empty string.
\<close>

definition jsonb_column :: "json \<Rightarrow> json option" where
  "jsonb_column j = (if j = JNull then None else Some j)"

definition batch_record :: "Repo \<Rightarrow> json \<Rightarrow> row" where
  "batch_record r md =
     \<lparr>id_col = Some (int (ID r)),
      name = Some (coerce_utf8 (Name r)),
      description = Some (coerce_utf8 []),
      language = Some (coerce_utf8 (Language r)),
      created_at = Some (UTC (CreatedAt r)),
      updated_at = nullTimeColumn (UTC (UpdatedAt r)),
      deleted_at = nullTimeColumn (UTC (DeletedAt r)),
      external_service_type =
        map_option coerce_utf8 (nullStringColumn (ServiceType (ExternalRepo r))),
      external_service_id =
        map_option coerce_utf8 (nullStringColumn (ServiceID (ExternalRepo r))),
      external_id = map_option coerce_utf8 (nullStringColumn (ExtID (ExternalRepo r))),
      enabled = Some (Enabled r),
      archived = Some (Archived r),
      fork = Some (Fork r),
      sources = jsonb_column (sourcesColumn (Sources r)),
      metadata = jsonb_column md\<rparr>"

text \<open>
  The metadata of a record: the raw bytes as they are, \<open>null\<close> for a nil slice, or the
  result of \<open>json.MarshalIndent\<close> on a value of another type.

  \<open>upsertReposQuery\<close> returns an error in three cases: \<open>json.MarshalIndent\<close> fails on a
  metadata value, which ends the loop; or the final \<open>json.MarshalIndent\<close> of the records
  fails, on raw metadata that is not JSON or on a time whose year cannot be marshalled.
  The three are the same error value here and are found repo by repo.
\<close>

fun record_metadata :: "Metadata \<Rightarrow> error + json" where
  "record_metadata (MetaBytes NilBytes) = Inr JNull"
| "record_metadata (MetaBytes (JSONText j)) = Inr j"
| "record_metadata (MetaString (Some j)) = Inr j"
| "record_metadata (MetaRawMessage NilBytes) = Inr JNull"
| "record_metadata (MetaRawMessage (JSONText j)) = Inr j"
| "record_metadata (MetaValue (Some j)) = Inr j"
| "record_metadata _ = Inl MarshalError"

definition times_marshal :: "Repo \<Rightarrow> bool" where
  "times_marshal r \<longleftrightarrow>
     year_marshals (UTC (CreatedAt r)) \<and>
     (case nullTimeColumn (UTC (UpdatedAt r)) of None \<Rightarrow> True | Some t \<Rightarrow> year_marshals t) \<and>
     (case nullTimeColumn (UTC (DeletedAt r)) of None \<Rightarrow> True | Some t \<Rightarrow> year_marshals t)"

fun upsertReposQuery :: "Repo list \<Rightarrow> error + row list" where
  "upsertReposQuery [] = Inr []"
| "upsertReposQuery (r # repos) =
     (case record_metadata (Metadata r) of
        Inl err \<Rightarrow> Inl err
      | Inr md \<Rightarrow>
          if times_marshal r then
            (case upsertReposQuery repos of
               Inl err \<Rightarrow> Inl err
             | Inr records \<Rightarrow> Inr (batch_record r md # records))
          else Inl MarshalError)"

text \<open>
  The condition under which a row of \<open>repo\<close> and a row of \<open>batch\<close> are the same repo: the
  same id, the same name, or the same external triple, no field of which is NULL.
\<close>

definition same_triple :: "row \<Rightarrow> row \<Rightarrow> bool option" where
  "same_triple r b =
     foldr sql_and
       [is_not_null (external_id r),
        is_not_null (external_service_id r),
        is_not_null (external_service_type r),
        is_not_null (external_id b),
        is_not_null (external_service_id b),
        is_not_null (external_service_type b),
        sql_eq (external_service_id r) (external_service_id b),
        sql_eq (external_id r) (external_id b),
        sql_eq (external_service_type r) (external_service_type b)]
       (Some True)"

definition updated_where :: "row \<Rightarrow> row \<Rightarrow> bool option" where
  "updated_where r b =
     sql_or (sql_or (sql_eq (id_col r) (id_col b)) (citext_eq (name r) (name b)))
            (same_triple r b)"

text \<open>The \<open>SET\<close> list of the \<open>updated\<close> expression, for the row \<open>r\<close> of \<open>repo\<close> and the row \<open>b\<close> of \<open>batch\<close>.\<close>

definition updated_set :: "row \<Rightarrow> row \<Rightarrow> row" where
  "updated_set r b =
     \<lparr>id_col = sql_greatest [id_col b, id_col r],
      name = sql_coalesce [name b, name r],
      description = description b,
      language = language b,
      created_at = created_at b,
      updated_at = updated_at b,
      deleted_at = deleted_at b,
      external_service_type = sql_coalesce [external_service_type b, external_service_type r],
      external_service_id = sql_coalesce [external_service_id b, external_service_id r],
      external_id = sql_coalesce [external_id b, external_service_id r],
      enabled = enabled b,
      archived = archived b,
      fork = fork b,
      sources = sources b,
      metadata = metadata b\<rparr>"

text \<open>
  \<open>UPDATE repo ... FROM batch\<close> updates a row of \<open>repo\<close> once, from one of the rows of
  \<open>batch\<close> that satisfy the condition with it; the first of them in the order of the batch
  is taken. \<open>updated_row\<close> is the new value of the row, if it is updated; \<open>updated\<close> is the
  result of \<open>RETURNING repo.*\<close>, and \<open>repo_after_update\<close> the table after the update.
\<close>

definition updated_row :: "row list \<Rightarrow> row \<Rightarrow> row option" where
  "updated_row batch r =
     map_option (updated_set r) (find (\<lambda>b. where_true (updated_where r b)) batch)"

definition updated :: "row list \<Rightarrow> row list \<Rightarrow> row list" where
  "updated batch tbl = List.map_filter (updated_row batch) tbl"

definition repo_after_update :: "row list \<Rightarrow> row list \<Rightarrow> row list" where
  "repo_after_update batch tbl =
     map (\<lambda>r. case updated_row batch r of None \<Rightarrow> r | Some r' \<Rightarrow> r') tbl"

text \<open>
  The rows of \<open>batch\<close> that the \<open>inserted\<close> expression selects: those for which none of the
  three subqueries finds a row of \<open>repo\<close>, as the table was before the statement. The column
  \<open>id\<close> is not in the column list of the \<open>INSERT\<close>: every new row takes the next value of
  the counter.
\<close>

definition inserted_where :: "row list \<Rightarrow> row \<Rightarrow> bool" where
  "inserted_where tbl b \<longleftrightarrow>
     \<not> list_ex (\<lambda>r. where_true (sql_eq (id_col r) (id_col b))) tbl \<and>
     \<not> list_ex (\<lambda>r. where_true (citext_eq (name r) (name b))) tbl \<and>
     \<not> list_ex (\<lambda>r. where_true (same_triple r b)) tbl"

fun assign_ids :: "int \<Rightarrow> row list \<Rightarrow> row list" where
  "assign_ids n [] = []"
| "assign_ids n (b # bs) = b\<lparr>id_col := Some n\<rparr> # assign_ids (n + 1) bs"

definition inserted :: "int \<Rightarrow> row list \<Rightarrow> row list \<Rightarrow> row list" where
  "inserted n batch tbl = assign_ids n (filter (inserted_where tbl) batch)"

text \<open>
  The final \<open>SELECT\<close>. A \<open>LEFT JOIN\<close> pairs a row of \<open>batch\<close> with every row of the other
  side whose name equals its own and, when there is none, with a row of NULLs.
\<close>

definition null_row :: row where
  "null_row =
     \<lparr>id_col = None, name = None, description = None, language = None,
      created_at = None, updated_at = None, deleted_at = None,
      external_service_type = None, external_service_id = None, external_id = None,
      enabled = None, archived = None, fork = None, sources = None, metadata = None\<rparr>"

definition left_join :: "row \<Rightarrow> row list \<Rightarrow> row list" where
  "left_join b rs =
     (case filter (\<lambda>x. where_true (citext_eq (name b) (name x))) rs of
        [] \<Rightarrow> [null_row]
      | xs \<Rightarrow> xs)"

definition select_list :: "row \<Rightarrow> row \<Rightarrow> row \<Rightarrow> row" where
  "select_list b u i =
     \<lparr>id_col = sql_greatest [id_col u, id_col i, id_col b],
      name = sql_coalesce [name u, name i, name b],
      description = sql_coalesce [description u, description i, description b],
      language = sql_coalesce [language u, language i, language b],
      created_at = sql_coalesce [created_at u, created_at i, created_at b],
      updated_at = sql_coalesce [updated_at u, updated_at i, updated_at b],
      deleted_at = sql_coalesce [deleted_at u, deleted_at i, deleted_at b],
      external_service_type =
        sql_coalesce [external_service_type u, external_service_type i, external_service_type b],
      external_service_id =
        sql_coalesce [external_service_id u, external_service_id i, external_service_id b],
      external_id = sql_coalesce [external_id u, external_id i, external_id b],
      enabled = sql_coalesce [enabled u, enabled i, enabled b],
      archived = sql_coalesce [archived u, archived i, archived b],
      fork = sql_coalesce [fork u, fork i, fork b],
      sources = sql_coalesce [sources u, sources i, sources b],
      metadata = sql_coalesce [metadata u, metadata i, metadata b]\<rparr>"

text \<open>The rows of the result that come from the row \<open>b\<close> of \<open>batch\<close>, and the whole result,
  in the order of the batch (\<open>ORDER BY batch.ordinality\<close>).\<close>

definition select_row :: "row list \<Rightarrow> row list \<Rightarrow> row \<Rightarrow> row list" where
  "select_row upd ins b =
     concat (map (\<lambda>u. map (\<lambda>i. select_list b u i) (left_join b ins)) (left_join b upd))"

definition final_select :: "row list \<Rightarrow> row list \<Rightarrow> row list \<Rightarrow> row list" where
  "final_select batch upd ins = concat (map (select_row upd ins) batch)"

text \<open>
  The column \<open>id\<close> of \<open>batch\<close> is of the type \<open>integer\<close>: \<open>jsonb_to_recordset\<close> fails on an
  id of a record that is not a 32-bit signed integer.
\<close>

definition integer_column :: "int option \<Rightarrow> bool" where
  "integer_column v = (case v of None \<Rightarrow> True | Some i \<Rightarrow> - 2147483648 \<le> i \<and> i \<le> 2147483647)"

text \<open>
  The whole statement of \<open>upsertReposQueryFmtstr\<close> on a database: its result set and the
  database after it, or an error, which leaves the database as it was: an id of the batch
  that is out of range, or a violation of the unique constraint.
\<close>

definition upsert_statement :: "database \<Rightarrow> row list \<Rightarrow> error + (row list \<times> database)" where
  "upsert_statement d batch =
     (if \<not> list_all (\<lambda>b. integer_column (id_col b)) batch
      then Inl (OutOfRange ''integer'')
      else
        (let upd = updated batch (repo d);
             ins = inserted (next_id d) batch (repo d);
             tbl = repo_after_update batch (repo d) @ ins
         in if unique_names tbl
            then Inr (final_select batch upd ins,
                      \<lparr>repo = tbl, next_id = next_id d + int (length ins)\<rparr>)
            else Inl (UniqueViolation ''repo_name_unique'')))"

text \<open>
  The decoding loop of \<open>UpsertRepos\<close>: the counter \<open>i\<close> is incremented for every row of the
  result, and the row is decoded into \<open>repos[i]\<close>. An index outside the slice is a panic
  of the runtime.
\<close>

fun scanAll_index :: "int \<Rightarrow> row list \<Rightarrow> Repo list \<Rightarrow> failure option \<times> Repo list" where
  "scanAll_index i [] repos = (None, repos)"
| "scanAll_index i (sc # rows) repos =
     (let i = i + 1
      in if 0 \<le> i \<and> i < int (length repos) then
           (case scanRepo (repos ! nat i) sc of
              (Some err, r) \<Rightarrow> (Some (Error err), repos[nat i := r])
            | (None, r) \<Rightarrow> scanAll_index i rows (repos[nat i := r]))
         else (Some (Panic ''index out of range''), repos))"

text \<open>
  \<open>UpsertRepos\<close> returns its error or panic, if any, the slice of repos as it has been
  written, and the database after the call.
\<close>

definition UpsertRepos :: "DBStore \<Rightarrow> database \<Rightarrow> Repo list \<Rightarrow> (failure option \<times> Repo list) \<times> database" where
  "UpsertRepos s d repos =
     (if repos = [] then ((None, repos), d)
      else
        (case upsertReposQuery repos of
           Inl err \<Rightarrow> ((Some (Error err), repos), d)
         | Inr batch \<Rightarrow>
             (case upsert_statement d batch of
                Inl err \<Rightarrow> ((Some (Error err), repos), d)
              | Inr (rows, d') \<Rightarrow> (scanAll_index (-1) rows repos, d'))))"

subsection \<open>Example values\<close>

text \<open>
  The store, repos and rows that the theorems below are evaluated on. The example store
  lists the kind "github" and has a handle that can begin the transaction 7. An example
  repo has an id and a name, an empty JSON object as metadata and the zero value in every
  other field. An example row is a live row of the table with one source.
\<close>

definition example_opts :: TxOptions where
  "example_opts = \<lparr>Isolation = 0, ReadOnly = False\<rparr>"

definition example_store :: DBStore where
  "example_store =
     NewDBStore \<lparr>asTx = None, asTxBeginner = Some (\<lambda>opts. Inr 7)\<rparr> [''github''] example_opts"

definition example_repo :: "nat \<Rightarrow> string \<Rightarrow> Repo" where
  "example_repo i n = zero_Repo\<lparr>ID := i, Name := n, Metadata := MetaValue (Some (JObject []))\<rparr>"

definition example_row :: "int \<Rightarrow> string \<Rightarrow> string \<Rightarrow> row" where
  "example_row i n k =
     \<lparr>id_col = Some i, name = Some n, description = Some ''old'', language = Some ''go'',
      created_at = Some 1, updated_at = None, deleted_at = None,
      external_service_type = Some k, external_service_id = Some ''https://example.com/'',
      external_id = Some ''MDEw'',
      enabled = Some True, archived = Some False, fork = Some False,
      sources = Some (JObject [(''x'', JNull)]), metadata = Some (JObject [])\<rparr>"

text \<open>The \<open>n\<close> rows with the ids 1 to \<open>n\<close>, in this order; the name of row \<open>i\<close> is \<open>i\<close> times the letter r.\<close>

definition numbered_rows :: "nat \<Rightarrow> row list" where
  "numbered_rows n = map (\<lambda>i. example_row (int i) (replicate i CHR ''r'') ''GITHUB'') [1..<Suc n]"

section \<open>Evaluation\<close>

lemmas eval_defs =
  Scan_def zero_Repo_def batch_record_def scan_into_def scan_null_def scan_uint32_def
  nullTimeColumn_def nullStringColumn_def UTC_def IsZero_def jsonb_column_def sourcesColumn_def
  sorted_list_of_set_sort_remdups scanRepo_def UpsertRepos_def upsert_statement_def
  updated_def inserted_def repo_after_update_def updated_row_def updated_set_def
  updated_where_def same_triple_def inserted_where_def final_select_def select_row_def
  select_list_def left_join_def null_row_def sql_coalesce_def sql_greatest_def citext_eq_def
  ascii_lower_def ascii_upper_def where_true_def is_null_def is_not_null_def sql_not_def
  sql_in_def List.map_filter_simps NewDBStore_def tx_handle_def listReposQuery_def
  listReposWhere_def page_def id_key_def ToUpper_def paginate_def paginate_limit_def
  ListRepos_def coerce_utf8_def rune_length_def in_range_def year_marshals_def
  times_marshal_def integer_column_def

lemmas example_defs = example_opts_def example_store_def example_repo_def example_row_def

section \<open>Transaction manager\<close>

lemma Done_not_tx: "asTx (db s) = None \<Longrightarrow> Done s errs = []"
  by (simp add: Done_def)

lemma Done_rollback_iff:
  "asTx (db s) = Some tx \<Longrightarrow>
   Done s errs = [Rollback tx] \<longleftrightarrow> (\<exists>e rest. errs = Some (Some e) # rest)"
  by (auto simp: Done_def split: list.splits option.splits)

lemma Done_commit_iff:
  "asTx (db s) = Some tx \<Longrightarrow>
   Done s errs = [Commit tx] \<longleftrightarrow> \<not> (\<exists>e rest. errs = Some (Some e) # rest)"
  by (auto simp: Done_def split: list.splits option.splits)

text \<open>
  Claim C6. \<open>Done\<close> makes no call when the handle of the store is not a transaction. When
  it is the transaction \<open>tx\<close>, \<open>Done\<close> makes exactly one call: with no error pointer, and
  with a first pointer to the nil error, it commits; it rolls back exactly when the first
  pointer points to a non-nil error, and commits in every other case.
\<close>

theorem Done_commit_or_rollback:
  "(asTx (db s) = None \<longrightarrow> Done s errs = []) \<and>
   (asTx (db s) = Some tx \<longrightarrow>
      Done s [] = [Commit tx] \<and>
      Done s (Some None # rest) = [Commit tx] \<and>
      (Done s errs = [Rollback tx] \<longleftrightarrow> (\<exists>e rest'. errs = Some (Some e) # rest')) \<and>
      (Done s errs = [Commit tx] \<longleftrightarrow> \<not> (\<exists>e rest'. errs = Some (Some e) # rest')))"
  using Done_not_tx [of s errs] Done_rollback_iff [of s tx errs] Done_commit_iff [of s tx errs]
  by (simp add: Done_def)

theorem Done_commit_or_rollback_witness:
  "Done (NewDBStore \<lparr>asTx = None, asTxBeginner = None\<rparr> [] \<lparr>Isolation = 0, ReadOnly = False\<rparr>)
     [Some (Some (ErrNew ''boom''))] = [] \<and>
   Done (NewDBStore (tx_handle 7) [] \<lparr>Isolation = 0, ReadOnly = False\<rparr>) [] = [Commit 7] \<and>
   Done (NewDBStore (tx_handle 7) [] \<lparr>Isolation = 0, ReadOnly = False\<rparr>) [Some None] = [Commit 7] \<and>
   Done (NewDBStore (tx_handle 7) [] \<lparr>Isolation = 0, ReadOnly = False\<rparr>)
     [Some (Some (ErrNew ''boom''))] = [Rollback 7]"
  using Done_commit_or_rollback
    [of "NewDBStore \<lparr>asTx = None, asTxBeginner = None\<rparr> [] \<lparr>Isolation = 0, ReadOnly = False\<rparr>"
        "[Some (Some (ErrNew ''boom''))]" 7 "[]"]
    Done_commit_or_rollback
    [of "NewDBStore (tx_handle 7) [] \<lparr>Isolation = 0, ReadOnly = False\<rparr>"
        "[Some (Some (ErrNew ''boom''))]" 7 "[]"]
  by (simp add: NewDBStore_def tx_handle_def)

text \<open>
  Claim C7. \<open>Transact\<close> on a store whose handle is already a transaction returns that same
  store and no error; on a store whose handle is neither a transaction nor able to begin
  one it returns the error "dbstore: not transactable" and no store.
\<close>

theorem Transact_reentrant_or_not_transactable:
  "(asTx (db s) \<noteq> None \<longrightarrow> Transact s = Inr s) \<and>
   (asTx (db s) = None \<and> asTxBeginner (db s) = None \<longrightarrow>
      Transact s = Inl (ErrNew ''dbstore: not transactable''))"
  by (auto simp: Transact_def)

theorem Transact_reentrant_or_not_transactable_witness:
  "Transact (NewDBStore (tx_handle 7) [''github''] \<lparr>Isolation = 0, ReadOnly = False\<rparr>) =
     Inr (NewDBStore (tx_handle 7) [''github''] \<lparr>Isolation = 0, ReadOnly = False\<rparr>) \<and>
   Transact (NewDBStore \<lparr>asTx = None, asTxBeginner = None\<rparr> [] \<lparr>Isolation = 0, ReadOnly = False\<rparr>) =
     Inl (ErrNew ''dbstore: not transactable'')"
  using Transact_reentrant_or_not_transactable
    [of "NewDBStore (tx_handle 7) [''github''] \<lparr>Isolation = 0, ReadOnly = False\<rparr>"]
    Transact_reentrant_or_not_transactable
    [of "NewDBStore \<lparr>asTx = None, asTxBeginner = None\<rparr> [] \<lparr>Isolation = 0, ReadOnly = False\<rparr>"]
  by (simp add: NewDBStore_def tx_handle_def)

text \<open>
  Claim C9 (as amended). When \<open>Transact\<close> begins a new transaction, that is, on a store
  whose handle is not already a transaction, the store it returns has the handle of the
  new transaction, the transaction options of the original store and an empty list of
  kinds: the condition of \<open>ListRepos\<close> through it does not depend on the external service
  type of a row, and \<open>ListRepos\<close> returns what a store with no kinds returns. On a store
  whose handle is already a transaction, \<open>Transact\<close> returns the store itself, with its kinds.
\<close>

theorem Transact_new_store_kinds:
  "(asTx (db s) = None \<and> Transact s = Inr s' \<longrightarrow>
      kinds s' = [] \<and> txOpts s' = txOpts s \<and> asTx (db s') \<noteq> None \<and>
      listReposWhere (kinds s') names cursor (r\<lparr>external_service_type := t\<rparr>) =
        listReposWhere (kinds s') names cursor r \<and>
      ListRepos s' d names = ListRepos (NewDBStore (db s') [] (txOpts s')) d names) \<and>
   (asTx (db s) \<noteq> None \<longrightarrow> Transact s = Inr s)"
  by (auto simp: Transact_def tx_handle_def listReposWhere_def ListRepos_def paginate_def
        NewDBStore_def split: option.splits sum.splits)

theorem Transact_new_store_kinds_witness:
  "asTx (db example_store) = None \<and>
   Transact example_store = Inr \<lparr>db = tx_handle 7, kinds = [], txOpts = example_opts\<rparr> \<and>
   kinds example_store = [''github''] \<and>
   kinds \<lparr>db = tx_handle 7, kinds = [], txOpts = example_opts\<rparr> = []"
  using Transact_new_store_kinds
    [of example_store "\<lparr>db = tx_handle 7, kinds = [], txOpts = example_opts\<rparr>"]
  by (simp add: example_defs NewDBStore_def Transact_def tx_handle_def)

text \<open>
  The claim as stated fails on a store that was created on a transaction with the kind
  "github": \<open>Transact\<close> succeeds and returns this store, its list of kinds is not empty, and
  \<open>ListRepos\<close> through it leaves out a row of the kind GITLAB that a store with no kinds lists.
\<close>

theorem Transact_reentrant_keeps_kinds:
  "Transact (NewDBStore (tx_handle 7) [''github''] example_opts) =
     Inr (NewDBStore (tx_handle 7) [''github''] example_opts) \<and>
   kinds (NewDBStore (tx_handle 7) [''github''] example_opts) = [''github''] \<and>
   map_option (\<lambda>(err, repos, rounds). (err, map Name repos))
     (ListRepos (NewDBStore (tx_handle 7) [''github''] example_opts)
        \<lparr>repo = [example_row 1 ''a'' ''GITLAB''], next_id = 2\<rparr> []) = Some (None, []) \<and>
   map_option (\<lambda>(err, repos, rounds). (err, map Name repos))
     (ListRepos (NewDBStore (tx_handle 7) [] example_opts)
        \<lparr>repo = [example_row 1 ''a'' ''GITLAB''], next_id = 2\<rparr> []) = Some (None, [''a''])"
  by (simp add: eval_defs example_defs paginate_loop.simps Transact_def)

section \<open>Scanner and codec\<close>

lemma fold_insert_set: "fold insert xs A = set xs \<union> A"
  by (induction xs arbitrary: A) auto

lemma unmarshal_sourcesColumn:
  "unmarshal_set (sourcesColumn srcs) = Inr (set (map coerce_utf8 srcs))"
  by (simp add: sourcesColumn_def fold_insert_set comp_def image_image)

lemma jsonb_sourcesColumn: "jsonb_column (sourcesColumn srcs) = Some (sourcesColumn srcs)"
  by (simp add: jsonb_column_def sourcesColumn_def)

lemma Scan_sources: "Scan r s = (e, r', srcs, md) \<Longrightarrow> srcs = sources s \<and> md = metadata s"
  by (auto simp: Scan_def Let_def)

lemma scanRepo_Sources:
  assumes "fst (Scan r s) = None" and "sources s = Some (sourcesColumn srcs)"
  shows "fst (scanRepo r s) = None \<and>
         Sources (snd (scanRepo r s)) = sorted_list_of_set (set (map coerce_utf8 srcs))"
proof -
  obtain r' md where S: "Scan r s = (None, r', sources s, md)"
    using assms(1) Scan_sources [of r s] by (cases "Scan r s") auto
  show ?thesis
    by (simp add: scanRepo_def S assms(2) unmarshal_sourcesColumn del: set_map)
qed

text \<open>
  Claim C5 (as amended). Let the column \<open>sources\<close> of a row hold what \<open>sourcesColumn\<close>
  encodes a sequence of sources to, and let the other columns of the row be ones that
  \<open>Scan\<close> accepts. Then \<open>scanRepo\<close> succeeds, and the sources of the decoded repo are the
  sources of the sequence as the encoder coerces them to valid UTF-8, each distinct one
  of them once, in lexicographic order. When every source of the sequence is valid UTF-8,
  so that the encoder leaves it as it is, these are the distinct sources of the sequence
  themselves. The repo that is decoded into, and so its former sources, play no part.
\<close>

theorem sources_roundtrip:
  assumes "fst (Scan r s) = None" and "sources s = jsonb_column (sourcesColumn srcs)"
  shows "fst (scanRepo r s) = None \<and>
         Sources (snd (scanRepo r s)) = sort (remdups (map coerce_utf8 srcs)) \<and>
         sorted (Sources (snd (scanRepo r s))) \<and>
         distinct (Sources (snd (scanRepo r s))) \<and>
         (list_all (\<lambda>src. coerce_utf8 src = src) srcs \<longrightarrow>
            Sources (snd (scanRepo r s)) = sort (remdups srcs) \<and>
            set (Sources (snd (scanRepo r s))) = set srcs)"
proof -
  have dec: "fst (scanRepo r s) = None"
    and src: "Sources (snd (scanRepo r s)) = sort (remdups (map coerce_utf8 srcs))"
    using scanRepo_Sources [OF assms(1), of srcs] assms(2)
    by (simp_all add: jsonb_sourcesColumn sorted_list_of_set_sort_remdups del: set_map)
  have "map coerce_utf8 srcs = srcs" if "list_all (\<lambda>src. coerce_utf8 src = src) srcs"
    using that by (simp add: list_all_iff map_idI)
  then show ?thesis using dec src by auto
qed

theorem sources_roundtrip_witness:
  "fst (Scan (example_repo 0 ''a'')
          (batch_record ((example_repo 0 ''a'')\<lparr>Sources := [''github'', ''github'']\<rparr>) (JObject []))) = None \<and>
   list_all (\<lambda>src. coerce_utf8 src = src) [''github'', ''github''] \<and>
   Sources (snd (scanRepo (example_repo 0 ''a'')
          (batch_record ((example_repo 0 ''a'')\<lparr>Sources := [''github'', ''github'']\<rparr>) (JObject []))))
     = [''github'']"
  using sources_roundtrip
    [of "example_repo 0 ''a''"
        "batch_record ((example_repo 0 ''a'')\<lparr>Sources := [''github'', ''github'']\<rparr>) (JObject [])"
        "[''github'', ''github'']"]
  by (simp add: eval_defs example_defs)

text \<open>
  The claim as stated fails on sources that are not valid UTF-8. The two distinct sources
  that consist of the byte FF and of the byte FE are both encoded as the key U+FFFD:
  decoding gives this one source, which is neither of the two.
\<close>

theorem sources_invalid_utf8_collapse:
  "fst (scanRepo (example_repo 0 ''a'')
          (batch_record ((example_repo 0 ''a'')\<lparr>Sources := [[CHR 0xFF], [CHR 0xFE]]\<rparr>) (JObject []))) = None \<and>
   Sources (snd (scanRepo (example_repo 0 ''a'')
          (batch_record ((example_repo 0 ''a'')\<lparr>Sources := [[CHR 0xFF], [CHR 0xFE]]\<rparr>) (JObject []))))
     = [[CHR 0xEF, CHR 0xBF, CHR 0xBD]]"
  by (simp add: eval_defs example_defs)

section \<open>Write path\<close>

subsection \<open>The update and the encoding of the batch on examples\<close>

text \<open>
  Claim C2 fails on the code. The table holds one row with the id 1, the name "a" and a
  full external triple whose external id is "MDEw"; the batch holds one repo with the same
  id and name and no external triple. The \<open>updated\<close> expression keeps the service type and
  the service id of the row, and writes its service id, not its external id, into the
  column \<open>external_id\<close>; the repo that is returned carries it.
\<close>

theorem upsert_external_id_from_service_id:
  "external_id (example_row 1 ''a'' ''GITHUB'') = Some ''MDEw'' \<and>
   external_service_id (example_row 1 ''a'' ''GITHUB'') = Some ''https://example.com/'' \<and>
   map external_id (repo (snd (UpsertRepos example_store
       \<lparr>repo = [example_row 1 ''a'' ''GITHUB''], next_id = 2\<rparr> [example_repo 1 ''a''])))
     = [Some ''https://example.com/''] \<and>
   map external_service_id (repo (snd (UpsertRepos example_store
       \<lparr>repo = [example_row 1 ''a'' ''GITHUB''], next_id = 2\<rparr> [example_repo 1 ''a''])))
     = [Some ''https://example.com/''] \<and>
   map external_service_type (repo (snd (UpsertRepos example_store
       \<lparr>repo = [example_row 1 ''a'' ''GITHUB''], next_id = 2\<rparr> [example_repo 1 ''a''])))
     = [Some ''GITHUB''] \<and>
   map (\<lambda>r. ExtID (ExternalRepo r)) (snd (fst (UpsertRepos example_store
       \<lparr>repo = [example_row 1 ''a'' ''GITHUB''], next_id = 2\<rparr> [example_repo 1 ''a''])))
     = [''https://example.com/'']"
  by (simp add: eval_defs example_defs)

text \<open>
  Claim C3 fails on the code. A repo with the description "a repository" is upserted, once
  into the empty table and once over the row with its id: the call succeeds, the column
  \<open>description\<close> of the row that is written is the empty string, and so is the description
  of the repo that is returned.
\<close>

theorem upsert_description_empty:
  "fst (fst (UpsertRepos example_store \<lparr>repo = [], next_id = 1\<rparr>
       [(example_repo 0 ''a'')\<lparr>Description := ''a repository''\<rparr>])) = None \<and>
   map description (repo (snd (UpsertRepos example_store \<lparr>repo = [], next_id = 1\<rparr>
       [(example_repo 0 ''a'')\<lparr>Description := ''a repository''\<rparr>]))) = [Some []] \<and>
   map Description (snd (fst (UpsertRepos example_store \<lparr>repo = [], next_id = 1\<rparr>
       [(example_repo 0 ''a'')\<lparr>Description := ''a repository''\<rparr>]))) = [[]] \<and>
   map description (repo (snd (UpsertRepos example_store
       \<lparr>repo = [example_row 1 ''a'' ''GITHUB''], next_id = 2\<rparr>
       [(example_repo 1 ''a'')\<lparr>Description := ''a repository''\<rparr>]))) = [Some []]"
  by (simp add: eval_defs example_defs)

subsection \<open>Two new repos on an empty table\<close>




subsection \<open>The result of the statement and the decoding loop\<close>

lemma left_join_not_Nil: "left_join b rs \<noteq> []"
  by (simp add: left_join_def split: list.splits)

lemma length_left_join:
  "length (left_join b rs) = max 1 (length (filter (\<lambda>x. where_true (citext_eq (name b) (name x))) rs))"
  by (simp add: left_join_def split: list.splits)

lemma length_concat_map_const:
  "length (concat (map (\<lambda>u. map (f u) ys) xs)) = length xs * length ys"
  by (induction xs) auto

lemma length_select_row:
  "length (select_row upd ins b) = length (left_join b upd) * length (left_join b ins)"
  by (simp add: select_row_def length_concat_map_const)

lemma select_row_not_Nil: "select_row upd ins b \<noteq> []"
proof -
  have "0 < length (left_join b upd) * length (left_join b ins)"
    using left_join_not_Nil [of b upd] left_join_not_Nil [of b ins] by simp
  then show ?thesis
    using length_select_row [of upd ins b] by auto
qed

lemma length_concat_ge:
  "list_all (\<lambda>xs. xs \<noteq> []) xss \<Longrightarrow> length xss \<le> length (concat xss)"
proof (induction xss)
  case Nil
  then show ?case by simp
next
  case (Cons xs xss)
  then have "1 \<le> length xs" by (cases xs) auto
  with Cons show ?case by simp
qed

lemma concat_singletons:
  "list_all (\<lambda>xs. xs \<noteq> []) xss \<Longrightarrow> length (concat xss) \<le> length xss \<Longrightarrow>
   i < length xss \<Longrightarrow> xss ! i = [concat xss ! i]"
proof (induction xss arbitrary: i)
  case Nil
  then show ?case by simp
next
  case (Cons xs xss)
  have ge: "length xss \<le> length (concat xss)"
    using Cons.prems(1) by (simp add: length_concat_ge)
  have pos: "1 \<le> length xs"
    using Cons.prems(1) by (cases xs) auto
  have one: "length xs = 1"
    using Cons.prems(2) ge pos by simp
  then obtain x where xs: "xs = [x]"
    by (cases xs) auto
  have le: "length (concat xss) \<le> length xss"
    using Cons.prems(2) one by simp
  show ?case
  proof (cases i)
    case 0
    then show ?thesis by (simp add: xs)
  next
    case (Suc j)
    then have "xss ! j = [concat xss ! j]"
      using Cons.IH [of j] Cons.prems(1,3) le by simp
    then show ?thesis by (simp add: Suc xs)
  qed
qed

lemma final_select_all_nonempty:
  "list_all (\<lambda>xs. xs \<noteq> []) (map (select_row upd ins) batch)"
  by (simp add: list_all_iff select_row_not_Nil)

lemma length_final_select_ge: "length batch \<le> length (final_select batch upd ins)"
  using length_concat_ge [OF final_select_all_nonempty, of upd ins batch]
  by (simp add: final_select_def)

lemma final_select_nth:
  assumes "length (final_select batch upd ins) \<le> length batch" and "i < length batch"
  shows "select_row upd ins (batch ! i) = [final_select batch upd ins ! i]"
  using concat_singletons [OF final_select_all_nonempty, of upd ins batch i] assms
  by (simp add: final_select_def)

lemma scanAll_index_ok:
  "scanAll_index i rows repos = (None, repos') \<Longrightarrow> - 1 \<le> i \<Longrightarrow> nat (i + 1) \<le> length repos \<Longrightarrow>
   nat (i + 1) + length rows \<le> length repos \<and> length repos' = length repos \<and>
   (\<forall>k < length rows. scanRepo (repos ! (nat (i + 1) + k)) (rows ! k) = (None, repos' ! (nat (i + 1) + k))) \<and>
   (\<forall>j < nat (i + 1). repos' ! j = repos ! j)"
proof (induction rows arbitrary: i repos)
  case Nil
  then show ?case by simp
next
  case (Cons sc rows)
  let ?j = "nat (i + 1)"
  from Cons.prems have inb: "i + 1 < int (length repos)"
    by (auto simp: Let_def split: if_splits)
  then have jl: "?j < length repos" using Cons.prems(2) by simp
  obtain r where sr: "scanRepo (repos ! ?j) sc = (None, r)"
    and rec: "scanAll_index (i + 1) rows (repos[?j := r]) = (None, repos')"
    using Cons.prems inb by (auto simp: Let_def split: if_splits prod.splits option.splits)
  have IH: "nat (i + 1 + 1) + length rows \<le> length (repos[?j := r]) \<and> length repos' = length (repos[?j := r]) \<and>
   (\<forall>k < length rows. scanRepo ((repos[?j := r]) ! (nat (i + 1 + 1) + k)) (rows ! k) = (None, repos' ! (nat (i + 1 + 1) + k))) \<and>
   (\<forall>j < nat (i + 1 + 1). repos' ! j = (repos[?j := r]) ! j)"
    using Cons.IH [OF rec] Cons.prems(2) jl by simp
  have n2: "nat (i + 1 + 1) = Suc ?j" using Cons.prems(2) by simp
  have a: "?j + length (sc # rows) \<le> length repos" using IH n2 by simp
  have b: "length repos' = length repos" using IH by simp
  have c: "scanRepo (repos ! (?j + k)) ((sc # rows) ! k) = (None, repos' ! (?j + k))"
    if "k < length (sc # rows)" for k
  proof (cases k)
    case 0
    have "repos' ! ?j = (repos[?j := r]) ! ?j" using IH n2 by simp
    then show ?thesis using sr jl 0 by simp
  next
    case (Suc k')
    then have "k' < length rows" using that by simp
    then have "scanRepo ((repos[?j := r]) ! (Suc ?j + k')) (rows ! k') = (None, repos' ! (Suc ?j + k'))"
      using IH n2 by simp
    then show ?thesis using Suc by simp
  qed
  have d: "repos' ! j = repos ! j" if "j < ?j" for j
  proof -
    have "repos' ! j = (repos[?j := r]) ! j" using IH n2 that by simp
    then show ?thesis using that by simp
  qed
  show ?case using a b c d by blast
qed

lemma scanAll_index_no_panic:
  "- 1 \<le> i \<Longrightarrow> nat (i + 1) + length rows \<le> length repos \<Longrightarrow>
   fst (scanAll_index i rows repos) \<noteq> Some (Panic m)"
proof (induction rows arbitrary: i repos)
  case Nil
  then show ?case by simp
next
  case (Cons sc rows)
  have inb: "0 \<le> i + 1 \<and> i + 1 < int (length repos)" using Cons.prems by auto
  have n2: "nat (i + 1 + 1) = Suc (nat (i + 1))" using Cons.prems(1) by simp
  show ?case
  proof (cases "scanRepo (repos ! nat (i + 1)) sc")
    case (Pair e r)
    show ?thesis
    proof (cases e)
      case None
      have "fst (scanAll_index (i + 1) rows (repos[nat (i + 1) := r])) \<noteq> Some (Panic m)"
        using Cons.IH [of "i + 1" "repos[nat (i + 1) := r]"] Cons.prems n2 by simp
      then show ?thesis using inb Pair None by (simp add: Let_def)
    next
      case (Some err)
      then show ?thesis using inb Pair by (simp add: Let_def)
    qed
  qed
qed

lemma scanAll_index_panic:
  "list_all (\<lambda>sc. \<forall>r. fst (scanRepo r sc) = None) rows \<Longrightarrow> - 1 \<le> i \<Longrightarrow>
   nat (i + 1) \<le> length repos \<Longrightarrow> length repos < nat (i + 1) + length rows \<Longrightarrow>
   fst (scanAll_index i rows repos) = Some (Panic ''index out of range'')"
proof (induction rows arbitrary: i repos)
  case Nil
  then show ?case by simp
next
  case (Cons sc rows)
  have n2: "nat (i + 1 + 1) = Suc (nat (i + 1))" using Cons.prems(2) by simp
  show ?case
  proof (cases "i + 1 < int (length repos)")
    case True
    obtain r where sr: "scanRepo (repos ! nat (i + 1)) sc = (None, r)"
      using Cons.prems(1) by (cases "scanRepo (repos ! nat (i + 1)) sc") (auto dest: spec [of _ "repos ! nat (i + 1)"])
    have "fst (scanAll_index (i + 1) rows (repos[nat (i + 1) := r])) = Some (Panic ''index out of range'')"
      using Cons.IH [of "i + 1" "repos[nat (i + 1) := r]"] Cons.prems n2 True by simp
    then show ?thesis using True Cons.prems(2) sr by (simp add: Let_def)
  next
    case False
    then show ?thesis by (simp add: Let_def)
  qed
qed


lemma upsertReposQuery_batch:
  "upsertReposQuery repos = Inr batch \<Longrightarrow>
   length batch = length repos \<and>
   (\<forall>i < length repos. \<exists>md. record_metadata (Metadata (repos ! i)) = Inr md \<and>
                            batch ! i = batch_record (repos ! i) md)"
proof (induction repos arbitrary: batch)
  case Nil
  then show ?case by simp
next
  case (Cons r repos)
  then obtain md records where md: "record_metadata (Metadata r) = Inr md"
    and rec: "upsertReposQuery repos = Inr records" and b: "batch = batch_record r md # records"
    by (auto split: sum.splits if_splits)
  have IH: "length records = length repos \<and>
   (\<forall>i < length repos. \<exists>md. record_metadata (Metadata (repos ! i)) = Inr md \<and>
                            records ! i = batch_record (repos ! i) md)"
    using Cons.IH [OF rec] .
  show ?case
  proof (intro conjI allI impI)
    show "length batch = length (r # repos)" using IH b by simp
  next
    fix i assume "i < length (r # repos)"
    then show "\<exists>md. record_metadata (Metadata ((r # repos) ! i)) = Inr md \<and>
                    batch ! i = batch_record ((r # repos) ! i) md"
      using IH md b by (cases i) auto
  qed
qed

lemma UpsertRepos_success:
  assumes "repos \<noteq> []" and "UpsertRepos s d repos = ((None, repos'), d')"
  obtains batch rows where "upsertReposQuery repos = Inr batch"
    and "upsert_statement d batch = Inr (rows, d')"
    and "scanAll_index (- 1) rows repos = (None, repos')"
  using assms by (auto simp: UpsertRepos_def split: sum.splits prod.splits)

lemma upsert_statement_rows:
  "upsert_statement d batch = Inr (rows, d') \<Longrightarrow>
   rows = final_select batch (updated batch (repo d)) (inserted (next_id d) batch (repo d))"
  by (auto simp: upsert_statement_def Let_def split: if_splits)

text \<open>
  Claim C1. Whenever \<open>UpsertRepos\<close> succeeds on a non-empty sequence of repos, the statement
  has returned as many rows as there are repos, and for every position \<open>i\<close>: the row \<open>i\<close>
  of the batch encodes the repo \<open>i\<close>, the row \<open>i\<close> of the result is the one row that the
  final \<open>SELECT\<close> produces for the row \<open>i\<close> of the batch, whichever of \<open>updated\<close>,
  \<open>inserted\<close> and \<open>batch\<close> its columns come from, and it is decoded into the repo \<open>i\<close>.
\<close>

theorem UpsertRepos_order:
  assumes "repos \<noteq> []" and "UpsertRepos s d repos = ((None, repos'), d')"
  shows "\<exists>batch rows.
           upsertReposQuery repos = Inr batch \<and>
           upsert_statement d batch = Inr (rows, d') \<and>
           length batch = length repos \<and>
           length rows = length repos \<and>
           length repos' = length repos \<and>
           (\<forall>i < length repos.
              (\<exists>md. batch ! i = batch_record (repos ! i) md) \<and>
              select_row (updated batch (repo d)) (inserted (next_id d) batch (repo d)) (batch ! i)
                = [rows ! i] \<and>
              scanRepo (repos ! i) (rows ! i) = (None, repos' ! i))"
proof -
  obtain batch rows where q: "upsertReposQuery repos = Inr batch"
    and st: "upsert_statement d batch = Inr (rows, d')"
    and sc: "scanAll_index (- 1) rows repos = (None, repos')"
    using UpsertRepos_success [OF assms] by blast
  let ?upd = "updated batch (repo d)" and ?ins = "inserted (next_id d) batch (repo d)"
  have rows: "rows = final_select batch ?upd ?ins"
    using upsert_statement_rows [OF st] .
  have lb: "length batch = length repos"
    and nb: "\<forall>i < length repos. \<exists>md. record_metadata (Metadata (repos ! i)) = Inr md \<and>
                            batch ! i = batch_record (repos ! i) md"
    using upsertReposQuery_batch [OF q] by auto
  have dec: "nat (- 1 + 1) + length rows \<le> length repos \<and> length repos' = length repos \<and>
   (\<forall>k < length rows. scanRepo (repos ! (nat (- 1 + 1) + k)) (rows ! k) = (None, repos' ! (nat (- 1 + 1) + k)))"
    using scanAll_index_ok [OF sc] by simp
  then have le: "length rows \<le> length repos" and lr: "length repos' = length repos"
    and each: "\<forall>k < length rows. scanRepo (repos ! k) (rows ! k) = (None, repos' ! k)"
    by auto
  have ge: "length batch \<le> length rows"
    using length_final_select_ge [of batch ?upd ?ins] rows by simp
  have len: "length rows = length repos" using le ge lb by simp
  have sel: "select_row ?upd ?ins (batch ! i) = [rows ! i]" if "i < length repos" for i
    using final_select_nth [of batch ?upd ?ins i] that lb len rows by simp
  show ?thesis
    using q st lb len lr nb each sel by (intro exI [of _ batch] exI [of _ rows]) auto
qed

theorem UpsertRepos_order_witness:
  "[(example_repo 0 ''a'')\<lparr>Sources := [''x'']\<rparr>, example_repo 5 ''b''] \<noteq> [] \<and>
   fst (fst (UpsertRepos example_store \<lparr>repo = [example_row 5 ''c'' ''GITHUB''], next_id = 6\<rparr>
      [(example_repo 0 ''a'')\<lparr>Sources := [''x'']\<rparr>, example_repo 5 ''b''])) = None \<and>
   length (snd (fst (UpsertRepos example_store \<lparr>repo = [example_row 5 ''c'' ''GITHUB''], next_id = 6\<rparr>
      [(example_repo 0 ''a'')\<lparr>Sources := [''x'']\<rparr>, example_repo 5 ''b'']))) = 2"
proof -
  let ?repos = "[(example_repo 0 ''a'')\<lparr>Sources := [''x'']\<rparr>, example_repo 5 ''b'']"
  let ?res = "UpsertRepos example_store \<lparr>repo = [example_row 5 ''c'' ''GITHUB''], next_id = 6\<rparr> ?repos"
  have ne: "?repos \<noteq> []" by simp
  have ok: "fst (fst ?res) = None" by (simp add: eval_defs example_defs)
  then have eq: "?res = ((None, snd (fst ?res)), snd ?res)"
    by (metis prod.collapse)
  from UpsertRepos_order [OF ne eq]
  have "length (snd (fst ?res)) = length ?repos" by blast
  then show ?thesis using ok by simp
qed

subsection \<open>The unique constraint and the bounds of the decoding loop\<close>

lemma citext_eq_trans:
  "where_true (citext_eq a b) \<Longrightarrow> where_true (citext_eq a c) \<Longrightarrow> where_true (citext_eq b c)"
  by (cases a; cases b; cases c) (auto simp: citext_eq_def where_true_def)

lemma unique_names_filter:
  "unique_names xs \<Longrightarrow> length (filter (\<lambda>x. where_true (citext_eq nm (name x))) xs) \<le> 1"
proof (induction xs)
  case Nil
  then show ?case by simp
next
  case (Cons r rs)
  show ?case
  proof (cases "where_true (citext_eq nm (name r))")
    case True
    have "filter (\<lambda>x. where_true (citext_eq nm (name x))) rs = []"
      using Cons.prems True citext_eq_trans [of nm "name r"]
      by (auto simp: filter_empty_conv list_all_iff)
    then show ?thesis using True by simp
  next
    case False
    then show ?thesis using Cons by simp
  qed
qed

lemma filter_map_filter_le:
  "length (filter P (List.map_filter f xs))
     \<le> length (filter P (map (\<lambda>r. case f r of None \<Rightarrow> r | Some r' \<Rightarrow> r') xs))"
  by (induction xs) (auto simp: List.map_filter_simps split: option.splits)

lemma upsert_statement_unique:
  "upsert_statement d batch = Inr (rows, d') \<Longrightarrow>
   unique_names (repo_after_update batch (repo d) @ inserted (next_id d) batch (repo d))"
  by (auto simp: upsert_statement_def Let_def split: if_splits)

lemma length_left_join_unique:
  assumes "upsert_statement d batch = Inr (rows, d')"
  shows "length (left_join b (updated batch (repo d))) = 1"
    and "length (left_join b (inserted (next_id d) batch (repo d))) = 1"
proof -
  let ?P = "\<lambda>x. where_true (citext_eq (name b) (name x))"
  let ?ins = "inserted (next_id d) batch (repo d)"
  have "length (filter ?P (repo_after_update batch (repo d) @ ?ins)) \<le> 1"
    using unique_names_filter [OF upsert_statement_unique [OF assms]] .
  then have a: "length (filter ?P (repo_after_update batch (repo d))) \<le> 1"
    and i: "length (filter ?P ?ins) \<le> 1" by auto
  have "length (filter ?P (updated batch (repo d))) \<le> length (filter ?P (repo_after_update batch (repo d)))"
    unfolding updated_def repo_after_update_def by (rule filter_map_filter_le)
  then have u: "length (filter ?P (updated batch (repo d))) \<le> 1" using a by simp
  show "length (left_join b (updated batch (repo d))) = 1"
    using u by (simp add: length_left_join)
  show "length (left_join b ?ins) = 1"
    using i by (simp add: length_left_join)
qed

text \<open>
  The constraint is what keeps the joins from multiplying rows: were two rows of the same
  name inserted for a batch of two repos of this name, the final \<open>SELECT\<close> would return
  four rows.
\<close>

lemma final_select_equal_names:
  "length (final_select
     [batch_record (example_repo 0 ''a'') (JObject []), batch_record (example_repo 0 ''a'') (JObject [])]
     []
     (assign_ids 1
        [batch_record (example_repo 0 ''a'') (JObject []), batch_record (example_repo 0 ''a'') (JObject [])]))
   = 4"
  by (simp add: eval_defs example_defs)

lemma length_concat_ones:
  "list_all (\<lambda>xs. length xs = 1) xss \<Longrightarrow> length (concat xss) = length xss"
  by (induction xss) auto

lemma upsert_statement_length:
  assumes "upsert_statement d batch = Inr (rows, d')"
  shows "length rows = length batch"
proof -
  let ?upd = "updated batch (repo d)" and ?ins = "inserted (next_id d) batch (repo d)"
  have "length (select_row ?upd ?ins b) = 1" for b
    using length_left_join_unique [OF assms, of b] by (simp add: length_select_row)
  then have "list_all (\<lambda>xs. length xs = 1) (map (select_row ?upd ?ins) batch)"
    by (simp add: list_all_iff)
  then have "length (final_select batch ?upd ?ins) = length batch"
    using length_concat_ones [of "map (select_row ?upd ?ins) batch"] by (simp add: final_select_def)
  then show ?thesis using upsert_statement_rows [OF assms] by simp
qed

lemma UpsertRepos_never_panics: "fst (fst (UpsertRepos s d repos)) \<noteq> Some (Panic m)"
proof (cases "repos = []")
  case True
  then show ?thesis by (simp add: UpsertRepos_def)
next
  case False
  show ?thesis
  proof (cases "upsertReposQuery repos")
    case (Inl err)
    then show ?thesis using False by (simp add: UpsertRepos_def)
  next
    case (Inr batch)
    have lb: "length batch = length repos" using upsertReposQuery_batch [OF Inr] by simp
    show ?thesis
    proof (cases "upsert_statement d batch")
      case (Inl err)
      then show ?thesis using False Inr by (simp add: UpsertRepos_def)
    next
      case st: (Inr res)
      obtain rows d' where res: "res = (rows, d')" by (cases res)
      have "length rows = length batch" using upsert_statement_length [of d batch rows d'] st res by simp
      then have "fst (scanAll_index (- 1) rows repos) \<noteq> Some (Panic m)"
        using scanAll_index_no_panic [of "- 1" rows repos m] lb by simp
      then show ?thesis using False Inr st res by (simp add: UpsertRepos_def)
    qed
  qed
qed

text \<open>
  Claim C10 (as amended). The decoding loop of \<open>UpsertRepos\<close> has no bounds check: given
  more rows, all of them decodable, than there are repos, it panics with an index out of
  range. The statement never gives it that many: when it succeeds it returns exactly one
  row for every row of the batch, since the names of the table are unique after it and
  the joins of the final \<open>SELECT\<close> are on the name. So \<open>UpsertRepos\<close> never panics.
\<close>

theorem UpsertRepos_decode_bounds:
  "(list_all (\<lambda>sc. \<forall>r. fst (scanRepo r sc) = None) rows \<and> length repos < length rows \<longrightarrow>
      fst (scanAll_index (- 1) rows repos) = Some (Panic ''index out of range'')) \<and>
   (upsert_statement d batch = Inr (rows', d') \<longrightarrow> length rows' = length batch) \<and>
   fst (fst (UpsertRepos s d repos)) \<noteq> Some (Panic m)"
  using scanAll_index_panic [of rows "- 1" repos] upsert_statement_length [of d batch rows' d']
    UpsertRepos_never_panics [of s d repos m]
  by simp

theorem UpsertRepos_decode_bounds_witness:
  "length [example_repo 1 ''a''] < length [example_row 1 ''a'' ''GITHUB'', example_row 2 ''b'' ''GITHUB''] \<and>
   fst (scanAll_index (- 1) [example_row 1 ''a'' ''GITHUB'', example_row 2 ''b'' ''GITHUB'']
          [example_repo 1 ''a'']) = Some (Panic ''index out of range'') \<and>
   length (fst (projr (upsert_statement \<lparr>repo = [example_row 1 ''a'' ''GITHUB''], next_id = 2\<rparr>
          [batch_record (example_repo 0 ''a'') (JObject []), batch_record (example_repo 0 ''A'') (JObject [])]))) = 2"
proof -
  let ?rows = "[example_row 1 ''a'' ''GITHUB'', example_row 2 ''b'' ''GITHUB'']"
  let ?d = "\<lparr>repo = [example_row 1 ''a'' ''GITHUB''], next_id = 2\<rparr>"
  let ?batch = "[batch_record (example_repo 0 ''a'') (JObject []), batch_record (example_repo 0 ''A'') (JObject [])]"
  have dec: "list_all (\<lambda>sc. \<forall>r. fst (scanRepo r sc) = None) ?rows"
    by (simp add: eval_defs example_defs)
  have st: "\<not> isl (upsert_statement ?d ?batch)"
    by (simp add: eval_defs example_defs Let_def)
  then have eq: "upsert_statement ?d ?batch =
      Inr (fst (projr (upsert_statement ?d ?batch)), snd (projr (upsert_statement ?d ?batch)))"
    by (cases "upsert_statement ?d ?batch") auto
  show ?thesis
    using UpsertRepos_decode_bounds [of ?rows "[example_repo 1 ''a'']" ?d ?batch
        "fst (projr (upsert_statement ?d ?batch))" "snd (projr (upsert_statement ?d ?batch))"]
      dec eq
    by simp
qed

text \<open>
  The claim as stated fails on its own example. Two repos with the same name, upserted into
  the empty table, make the statement fail on the unique constraint, and \<open>UpsertRepos\<close>
  returns this error; upserted into a table that holds a row of this name, they are both
  joined with the one updated row, the statement returns two rows and \<open>UpsertRepos\<close>
  succeeds. In neither case does the loop index past the end of the slice.
\<close>

theorem UpsertRepos_same_name_in_bounds:
  "fst (fst (UpsertRepos example_store \<lparr>repo = [], next_id = 1\<rparr>
       [example_repo 0 ''a'', example_repo 0 ''a''])) =
     Some (Error (UniqueViolation ''repo_name_unique'')) \<and>
   fst (fst (UpsertRepos example_store \<lparr>repo = [example_row 1 ''a'' ''GITHUB''], next_id = 2\<rparr>
       [example_repo 0 ''a'', example_repo 0 ''a''])) = None \<and>
   length (snd (fst (UpsertRepos example_store \<lparr>repo = [example_row 1 ''a'' ''GITHUB''], next_id = 2\<rparr>
       [example_repo 0 ''a'', example_repo 0 ''a'']))) = 2"
  by (simp add: eval_defs example_defs Let_def)

section \<open>Read path\<close>

subsection \<open>The rows of one page\<close>

lemma scan_into_NoneD:
  "fst (scan_into col v f st) = None \<Longrightarrow>
   fst st = None \<and> (\<exists>x. v = Some x \<and> snd (scan_into col v f st) = f x (snd st))"
  by (cases st; cases "fst st"; cases v) (auto simp: scan_into_def)

lemma scan_null_NoneD:
  "fst (scan_null z v f st) = None \<Longrightarrow>
   fst st = None \<and> snd (scan_null z v f st) = f (case v of None \<Rightarrow> z | Some x \<Rightarrow> x) (snd st)"
  by (cases st; cases "fst st") (auto simp: scan_null_def)

lemma Scan_id:
  assumes "fst (Scan r s) = None"
  shows "\<exists>i. id_col s = Some i \<and> 0 \<le> i \<and> ID (fst (snd (Scan r s))) = nat i"
  using assms unfolding Scan_def Let_def fst_conv snd_conv
  by (auto dest!: scan_into_NoneD scan_null_NoneD simp: scan_uint32_def split: option.splits if_splits)


lemma scanRepo_id:
  assumes "fst (scanRepo r s) = None"
  shows "\<exists>i. id_col s = Some i \<and> 0 \<le> i \<and> ID (snd (scanRepo r s)) = nat i"
proof -
  obtain e r' srcs md where S: "Scan r s = (e, r', srcs, md)" by (cases "Scan r s") auto
  have e: "e = None" using assms S by (cases e) (auto simp: scanRepo_def)
  then have "\<exists>i. id_col s = Some i \<and> 0 \<le> i \<and> ID r' = nat i"
    using Scan_id [of r s] S by simp
  then show ?thesis using assms S e
    by (auto simp: scanRepo_def Let_def split: sum.splits option.splits)
qed

lemma scanRepo_id_key:
  "fst (scanRepo r s) = None \<Longrightarrow> int (ID (snd (scanRepo r s))) = id_key s"
  using scanRepo_id [of r s] by (auto simp: id_key_def)

lemma where_true_sql_and: "where_true (sql_and a b) \<longleftrightarrow> where_true a \<and> where_true b"
  by (induction a b rule: sql_and.induct) (auto simp: where_true_def)

lemma where_true_sql_gt: "where_true (sql_gt (id_col r) (Some c)) \<longleftrightarrow> id_col r \<noteq> None \<and> c < id_key r"
  by (cases "id_col r") (auto simp: where_true_def id_key_def)

lemma listReposWhere_cursor:
  "0 \<le> c \<Longrightarrow>
   where_true (listReposWhere ks names c r) \<longleftrightarrow>
   c < id_key r \<and> where_true (listReposWhere ks names 0 r)"
  by (auto simp: listReposWhere_def Let_def where_true_sql_and where_true_sql_gt)

lemma listReposQuery_page:
  assumes "0 \<le> c"
  shows "listReposQuery ks names c (int P) tbl =
         take P (filter (\<lambda>r. c < id_key r)
                   (sort_key id_key (filter (\<lambda>r. where_true (listReposWhere ks names 0 r)) tbl)))"
proof -
  have "filter (\<lambda>r. where_true (listReposWhere ks names c r)) tbl =
        filter (\<lambda>r. c < id_key r) (filter (\<lambda>r. where_true (listReposWhere ks names 0 r)) tbl)"
    using listReposWhere_cursor [OF assms] by (auto intro: filter_cong)
  then show ?thesis
    by (simp add: listReposQuery_def filter_sort)
qed

lemma scanAll_append_ok:
  "list_all (\<lambda>sc. fst (scanRepo zero_Repo sc) = None) rows \<Longrightarrow>
   scanAll_append rows acc = (None, acc @ map (\<lambda>sc. snd (scanRepo zero_Repo sc)) rows)"
proof (induction rows arbitrary: acc)
  case Nil
  then show ?case by simp
next
  case (Cons sc rows)
  then obtain r where "scanRepo zero_Repo sc = (None, r)"
    by (cases "scanRepo zero_Repo sc") auto
  then show ?case using Cons by simp
qed

lemma filter_split_sorted:
  "\<forall>a\<in>set A. id_key a \<le> c \<Longrightarrow> \<forall>b\<in>set B. c < id_key b \<Longrightarrow>
   filter (\<lambda>r. c < id_key r) (A @ B) = B"
  by (auto simp: filter_empty_conv filter_id_conv)

lemma ceil_div_step:
  fixes P :: nat
  assumes "0 < P" "0 < n"
  shows "(n + P - 1) div P = Suc ((n - P + P - 1) div P)"
proof -
  have "n + P - 1 = (n - 1) + P" using assms by simp
  then have "(n + P - 1) div P = ((n - 1) + P) div P" by (rule arg_cong)
  also have "\<dots> = Suc ((n - 1) div P)" using assms(1) by (simp only: div_add_self2)
  finally have l: "(n + P - 1) div P = Suc ((n - 1) div P)" .
  have "(n - P + P - 1) div P = (n - 1) div P"
  proof (cases "P \<le> n")
    case True
    then show ?thesis by simp
  next
    case False
    then show ?thesis using assms by simp
  qed
  then show ?thesis using l by simp
qed


lemma sorted_wrt_le_last:
  fixes f :: "'a \<Rightarrow> int"
  shows "sorted_wrt (<) (map f xs) \<Longrightarrow> x \<in> set xs \<Longrightarrow> f x \<le> f (last xs)"
proof (induction xs)
  case Nil
  then show ?case by simp
next
  case (Cons y ys)
  show ?case
  proof (cases "ys = []")
    case True
    then show ?thesis using Cons.prems by simp
  next
    case False
    then have l: "last ys \<in> set ys" by simp
    show ?thesis
    proof (cases "x = y")
      case True
      have "f y < f (last ys)" using Cons.prems(1) l by simp
      then show ?thesis using True False by simp
    next
      case neq: False
      then show ?thesis using Cons False by auto
    qed
  qed
qed

lemma paginate_loop_pages:
  fixes P :: nat
  assumes P: "0 < P"
    and S: "sort_key id_key (filter (\<lambda>r. where_true (listReposWhere ks names 0 r)) (repo d)) = A @ B"
    and srt: "sorted_wrt (<) (map id_key (A @ B))"
    and dec: "list_all (\<lambda>sc. fst (scanRepo zero_Repo sc) = None) B"
    and c: "0 \<le> c" "cursor \<noteq> c"
    and A: "\<forall>a\<in>set A. id_key a \<le> c"
    and B: "\<forall>b\<in>set B. c < id_key b"
    and acc: "acc \<noteq> [] \<longrightarrow> int (ID (last acc)) = c"
  shows "paginate_loop d (listReposQuery ks names) (int P) cursor c None acc n =
         Some (None, acc @ map (\<lambda>sc. snd (scanRepo zero_Repo sc)) B,
               n + (length B + P - 1) div P + 1)"
  using S srt dec c A B acc
proof (induction "length B" arbitrary: A B c cursor acc n rule: less_induct)
  case less
  let ?dec = "\<lambda>sc. snd (scanRepo zero_Repo sc)"
  let ?T = "take P B"
  have rows: "listReposQuery ks names c (int P) (repo d) = ?T"
    unfolding listReposQuery_page [OF less.prems(4), of ks names P "repo d"] less.prems(1)
      filter_split_sorted [OF less.prems(6) less.prems(7)] ..
  have decT: "list_all (\<lambda>sc. fst (scanRepo zero_Repo sc) = None) ?T"
    using less.prems(3) by (auto simp: list_all_iff dest: in_set_takeD)
  have pg: "page d (listReposQuery ks names c (int P)) acc = (None, acc @ map ?dec ?T)"
    using scanAll_append_ok [OF decT, of acc] rows by (simp add: page_def)
  show ?case
  proof (cases "B = []")
    case True
    have stop: "paginate_loop d (listReposQuery ks names) (int P) c c None acc (Suc n) =
                Some (None, acc, Suc n)"
      by (subst paginate_loop.simps) simp
    have "paginate_loop d (listReposQuery ks names) (int P) cursor c None acc n =
          paginate_loop d (listReposQuery ks names) (int P) c c None acc (Suc n)"
      using less.prems(5) less.prems(8) pg True
      by (subst paginate_loop.simps) auto
    then show ?thesis using stop True P by simp
  next
    case False
    then have Tne: "?T \<noteq> []" using P by simp
    have lastT: "last ?T \<in> set B"
      using Tne by (meson in_set_takeD last_in_set)
    have declast: "fst (scanRepo zero_Repo (last ?T)) = None"
      using less.prems(3) lastT by (simp add: list_all_iff)
    let ?c' = "id_key (last ?T)"
    let ?acc' = "acc @ map ?dec ?T"
    have accne: "?acc' \<noteq> []" using Tne by simp
    have lastacc: "int (ID (last ?acc')) = ?c'"
      using Tne scanRepo_id_key [OF declast] by (simp add: last_map)
    have cc': "c < ?c'" using less.prems(7) lastT by simp
    have step: "paginate_loop d (listReposQuery ks names) (int P) cursor c None acc n =
          paginate_loop d (listReposQuery ks names) (int P) c ?c' None ?acc' (Suc n)"
      using less.prems(5) pg accne lastacc
      by (subst paginate_loop.simps) simp
    have split: "A @ B = (A @ ?T) @ drop P B" by simp
    have srtB: "sorted_wrt (<) (map id_key (?T @ drop P B))"
      using less.prems(2) by (simp add: sorted_wrt_append)
    have srtT: "sorted_wrt (<) (map id_key ?T)"
      using srtB by (simp only: map_append sorted_wrt_append)
    have A': "\<forall>a\<in>set (A @ ?T). id_key a \<le> ?c'"
    proof
      fix a assume "a \<in> set (A @ ?T)"
      then consider "a \<in> set A" | "a \<in> set ?T" by auto
      then show "id_key a \<le> ?c'"
      proof cases
        case 1
        then show ?thesis using less.prems(6) cc' by force
      next
        case 2
        then show ?thesis using sorted_wrt_le_last [OF srtT] by simp
      qed
    qed
    have B': "\<forall>b\<in>set (drop P B). ?c' < id_key b"
    proof
      fix b assume b: "b \<in> set (drop P B)"
      have "last ?T \<in> set ?T" using Tne by simp
      then show "?c' < id_key b"
        using srtB b by (simp only: map_append sorted_wrt_append) auto
    qed
    have decD: "list_all (\<lambda>sc. fst (scanRepo zero_Repo sc) = None) (drop P B)"
      using less.prems(3) by (auto simp: list_all_iff dest: in_set_dropD)
    have len: "length (drop P B) < length B" using False P by simp
    have IH: "paginate_loop d (listReposQuery ks names) (int P) c ?c' None ?acc' (Suc n) =
         Some (None, ?acc' @ map ?dec (drop P B),
               Suc n + (length (drop P B) + P - 1) div P + 1)"
    proof (rule less.hyps [OF len])
      show "sort_key id_key (filter (\<lambda>r. where_true (listReposWhere ks names 0 r)) (repo d))
            = (A @ ?T) @ drop P B"
        using less.prems(1) by simp
      show "sorted_wrt (<) (map id_key ((A @ ?T) @ drop P B))"
        using less.prems(2) by simp
      show "list_all (\<lambda>sc. fst (scanRepo zero_Repo sc) = None) (drop P B)" by (rule decD)
      show "0 \<le> ?c'" using cc' less.prems(4) by simp
      show "c \<noteq> ?c'" using cc' by simp
      show "\<forall>a\<in>set (A @ ?T). id_key a \<le> ?c'" by (rule A')
      show "\<forall>b\<in>set (drop P B). ?c' < id_key b" by (rule B')
      show "?acc' \<noteq> [] \<longrightarrow> int (ID (last ?acc')) = ?c'" using lastacc by simp
    qed
    have app: "?acc' @ map ?dec (drop P B) = acc @ map ?dec B"
      by (simp flip: map_append)
    have cnt: "(length B + P - 1) div P = Suc ((length (drop P B) + P - 1) div P)"
      using ceil_div_step [OF P, of "length B"] False by simp
    show ?thesis
      using step IH app cnt by simp
  qed
qed


lemma listReposWhere_positive:
  "where_true (listReposWhere ks names 0 r) \<Longrightarrow> 0 < id_key r"
  using listReposWhere_cursor [of 0 ks names r] by simp

lemma strict_sorted_sort_key:
  fixes f :: "'a \<Rightarrow> int"
  assumes "distinct (map f xs)"
  shows "sorted_wrt (<) (map f (sort_key f xs))"
proof -
  have "mset (map f (sort_key f xs)) = mset (map f xs)" by simp
  then have "distinct (map f (sort_key f xs))"
    using assms by (metis mset_eq_imp_distinct_iff)
  then show ?thesis
    by (simp add: strict_sorted_iff)
qed

lemma paginate_limit_all:
  fixes P :: nat
  assumes "0 < P"
    and "list_all (\<lambda>sc. fst (scanRepo zero_Repo sc) = None)
           (filter (\<lambda>r. where_true (listReposWhere ks names 0 r)) (repo d))"
    and "distinct (map id_key (filter (\<lambda>r. where_true (listReposWhere ks names 0 r)) (repo d)))"
  shows "paginate_limit (int P) d (listReposQuery ks names) =
         Some (None,
               map (\<lambda>sc. snd (scanRepo zero_Repo sc))
                 (sort_key id_key (filter (\<lambda>r. where_true (listReposWhere ks names 0 r)) (repo d))),
               (length (filter (\<lambda>r. where_true (listReposWhere ks names 0 r)) (repo d)) + P - 1) div P + 1)"
proof -
  let ?F = "filter (\<lambda>r. where_true (listReposWhere ks names 0 r)) (repo d)"
  let ?S = "sort_key id_key ?F"
  have S: "sort_key id_key ?F = [] @ ?S" by simp
  have srt: "sorted_wrt (<) (map id_key ([] @ ?S))"
    using strict_sorted_sort_key [OF assms(3)] by simp
  have dec: "list_all (\<lambda>sc. fst (scanRepo zero_Repo sc) = None) ?S"
    using assms(2) by (simp add: list_all_iff)
  have B: "\<forall>b\<in>set ?S. 0 < id_key b"
    by (auto dest: listReposWhere_positive)
  have "paginate_loop d (listReposQuery ks names) (int P) (- 1) 0 None [] 0 =
        Some (None, [] @ map (\<lambda>sc. snd (scanRepo zero_Repo sc)) ?S, 0 + (length ?S + P - 1) div P + 1)"
    by (rule paginate_loop_pages [OF assms(1) S srt dec _ _ _ B]) simp_all
  then show ?thesis by (simp add: paginate_limit_def)
qed

lemma decoded_ids:
  "list_all (\<lambda>sc. fst (scanRepo zero_Repo sc) = None) rows \<Longrightarrow>
   map (\<lambda>r. int (ID r)) (map (\<lambda>sc. snd (scanRepo zero_Repo sc)) rows) = map id_key rows"
  by (induction rows) (auto simp: scanRepo_id_key)

subsection \<open>The rounds of the loop\<close>

text \<open>
  Claim C4 (as amended). Consider the rows of the table that the query of \<open>ListRepos\<close>
  matches at its first cursor 0: the live rows of an allowed kind, with a source or a
  listed name, whose id is above 0. Let them have pairwise distinct ids and be decodable.
  With a page size \<open>P\<close> of at least 1, the loop of \<open>paginate\<close> ends without an error and
  returns these rows decoded, each of them once, in ascending order of their ids, after
  \<open>ceil(N / P) + 1\<close> rounds, \<open>N\<close> being their number: a round that returns rows, even less
  than a page, moves the cursor, and only the round that returns no row ends the loop.
  \<open>ListRepos\<close> is the case \<open>P = 500\<close>.
\<close>

theorem ListRepos_pagination:
  fixes P :: nat
  assumes "0 < P"
    and "list_all (\<lambda>sc. fst (scanRepo zero_Repo sc) = None)
           (filter (\<lambda>r. where_true (listReposWhere (kinds s) names 0 r)) (repo d))"
    and "distinct (map id_key (filter (\<lambda>r. where_true (listReposWhere (kinds s) names 0 r)) (repo d)))"
  shows "(let matching = filter (\<lambda>r. where_true (listReposWhere (kinds s) names 0 r)) (repo d);
              rows = sort_key id_key matching;
              out = map (\<lambda>sc. snd (scanRepo zero_Repo sc)) rows
          in paginate_limit (int P) d (listReposQuery (kinds s) names) =
               Some (None, out, (length matching + P - 1) div P + 1) \<and>
             mset rows = mset matching \<and>
             map (\<lambda>r. int (ID r)) out = map id_key rows \<and>
             sorted_wrt (<) (map id_key rows) \<and>
             (P = 500 \<longrightarrow>
                ListRepos s d names = Some (None, out, (length matching + P - 1) div P + 1)))"
proof -
  let ?F = "filter (\<lambda>r. where_true (listReposWhere (kinds s) names 0 r)) (repo d)"
  let ?out = "map (\<lambda>sc. snd (scanRepo zero_Repo sc)) (sort_key id_key ?F)"
  have dec: "list_all (\<lambda>sc. fst (scanRepo zero_Repo sc) = None) (sort_key id_key ?F)"
    using assms(2) by (simp add: list_all_iff)
  have eq: "paginate_limit (int P) d (listReposQuery (kinds s) names) =
            Some (None, ?out, (length ?F + P - 1) div P + 1)"
    by (rule paginate_limit_all [OF assms])
  have ids: "map (\<lambda>r. int (ID r)) ?out = map id_key (sort_key id_key ?F)"
    by (rule decoded_ids [OF dec])
  have srt: "sorted_wrt (<) (map id_key (sort_key id_key ?F))"
    by (rule strict_sorted_sort_key [OF assms(3)])
  have lr: "ListRepos s d names = Some (None, ?out, (length ?F + P - 1) div P + 1)" if "P = 500"
    using eq that by (simp add: ListRepos_def paginate_def)
  show ?thesis
    unfolding Let_def using eq ids srt lr by (intro conjI impI) simp_all
qed

lemma example_row_decodes:
  "0 \<le> i \<Longrightarrow> i < 4294967296 \<Longrightarrow> fst (scanRepo r (example_row i nm k)) = None"
  by (simp add: eval_defs example_defs)

lemma example_row_matches:
  "0 < i \<Longrightarrow> where_true (listReposWhere [''github''] [] 0 (example_row i nm ''GITHUB''))"
  by (simp add: eval_defs example_defs)

lemma id_key_example_row: "id_key (example_row i nm k) = i"
  by (simp add: id_key_def example_row_def)

lemma numbered_rows_match:
  "filter (\<lambda>r. where_true (listReposWhere [''github''] [] 0 r)) (numbered_rows n) = numbered_rows n"
  by (auto simp: numbered_rows_def filter_id_conv example_row_matches)

lemma numbered_rows_decode:
  "n < 4294967296 \<Longrightarrow> list_all (\<lambda>sc. fst (scanRepo zero_Repo sc) = None) (numbered_rows n)"
  by (auto simp: numbered_rows_def list_all_iff example_row_decodes)

lemma numbered_rows_ids: "map id_key (numbered_rows n) = map int [1..<Suc n]"
  by (simp add: numbered_rows_def id_key_example_row comp_def)

lemma numbered_rows_distinct: "distinct (map id_key (numbered_rows n))"
  by (simp add: numbered_rows_ids distinct_map inj_on_def)

lemma ListRepos_numbered_rows:
  assumes "n < 4294967296"
  shows "map_option (\<lambda>(err, repos, rounds). (err, length repos, rounds))
           (ListRepos example_store \<lparr>repo = numbered_rows n, next_id = int n + 1\<rparr> []) =
         Some (None, n, (n + 500 - 1) div 500 + 1)"
proof -
  let ?d = "\<lparr>repo = numbered_rows n, next_id = int n + 1\<rparr>"
  have k: "kinds example_store = [''github'']" by (simp add: example_defs NewDBStore_def)
  have len: "length (numbered_rows n) = n" by (simp add: numbered_rows_def)
  have "paginate_limit (int 500) ?d (listReposQuery [''github''] []) =
        Some (None, map (\<lambda>sc. snd (scanRepo zero_Repo sc)) (sort_key id_key (numbered_rows n)),
              (n + 500 - 1) div 500 + 1)"
    using paginate_limit_all [of 500 "[''github'']" "[]" ?d]
    by (simp add: numbered_rows_match numbered_rows_decode [OF assms] numbered_rows_distinct len)
  then show ?thesis
    by (simp add: ListRepos_def paginate_def k len)
qed

theorem ListRepos_pagination_witness:
  "(0::nat) < 2 \<and>
   list_all (\<lambda>sc. fst (scanRepo zero_Repo sc) = None)
     (filter (\<lambda>r. where_true (listReposWhere (kinds example_store) [] 0 r))
        (repo \<lparr>repo = numbered_rows 3, next_id = 4\<rparr>)) \<and>
   distinct (map id_key (filter (\<lambda>r. where_true (listReposWhere (kinds example_store) [] 0 r))
        (repo \<lparr>repo = numbered_rows 3, next_id = 4\<rparr>))) \<and>
   map_option (\<lambda>(err, repos, rounds). (err, map ID repos, rounds))
     (paginate_limit 2 \<lparr>repo = numbered_rows 3, next_id = 4\<rparr> (listReposQuery (kinds example_store) []))
     = Some (None, [1, 2, 3], 3)"
proof -
  let ?d = "\<lparr>repo = numbered_rows 3, next_id = 4\<rparr>"
  have k: "kinds example_store = [''github'']" by (simp add: example_defs NewDBStore_def)
  have h1: "(0::nat) < 2" by simp
  have h2: "list_all (\<lambda>sc. fst (scanRepo zero_Repo sc) = None)
     (filter (\<lambda>r. where_true (listReposWhere (kinds example_store) [] 0 r)) (repo ?d))"
    by (simp add: k numbered_rows_match numbered_rows_decode)
  have h3: "distinct (map id_key (filter (\<lambda>r. where_true (listReposWhere (kinds example_store) [] 0 r)) (repo ?d)))"
    by (simp add: k numbered_rows_match numbered_rows_distinct)
  have ev: "map_option (\<lambda>(err, repos, rounds). (err, map ID repos, rounds))
     (paginate_limit 2 ?d (listReposQuery (kinds example_store) [])) = Some (None, [1, 2, 3], 3)"
    using ListRepos_pagination [OF h1 h2 h3]
    by (simp add: Let_def k numbered_rows_match) code_simp
  show ?thesis using h1 h2 h3 ev by blast
qed

text \<open>
  The claim as stated fails on the number of rounds. On a table of 501 matching rows with
  the ids 1 to 501, \<open>ListRepos\<close>, whose page size is 500, returns the 501 rows after three
  rounds, of 500 rows, 1 row and no row, where \<open>ceil(501 / 500)\<close> is two.
\<close>

theorem ListRepos_501_rows_three_rounds:
  "map_option (\<lambda>(err, repos, rounds). (err, length repos, rounds))
     (ListRepos example_store \<lparr>repo = numbered_rows 501, next_id = 502\<rparr> []) = Some (None, 501, 3) \<and>
   (501 + 500 - 1) div 500 = (2::nat)"
  using ListRepos_numbered_rows [of 501] by simp

end
